theory Spec2Isabelle
  imports Main
begin

section \<open>Errors\<close>

text \<open>
  A JavaScript exception is a value: \<open>Thrown\<close> for an exception raised by user code
  (a \<open>compute()\<close> delegate, an opcode's \<open>evaluate\<close>), \<open>TypeError\<close> for a property read
  on \<open>undefined\<close>, \<open>ExpectFailed\<close> for a failed \<open>expect(...)\<close>.
\<close>

datatype error = Thrown string | TypeError string | ExpectFailed string

section \<open>Tags and revisions\<close>

text \<open>
  Modelled from the spec: the package \<open>@glimmer/validator\<close> (\<open>CONSTANT_TAG\<close>, \<open>valueForTag\<close>,
  \<open>validateTag\<close>, \<open>combine\<close>, \<open>track\<close>, \<open>consumeTag\<close>, \<open>resetTracking\<close>) is imported by the
  sources but is not among them. Section 4.1 of the specification gives its contract:
  a tag reports a revision; a combinator reports the maximum of its children; combining
  no tags gives the constant tag; \<open>validateTag(tag, R) = (valueForTag(tag) <= R)\<close>;
  \<open>track(fn)\<close> runs \<open>fn\<close> in a fresh tracking context, returns the combination of the tags
  consumed inside it and restores the outer context on every exit; \<open>consumeTag\<close> outside
  a tracking context does nothing.
\<close>

type_synonym revision = nat

datatype tag = CONSTANT_TAG | DirtyableTag nat | CombinatorTag "tag list"

record validator =
  clock :: revision
  cells :: "nat \<Rightarrow> revision"
  trackers :: "tag list list"

fun valueForTag :: "'w validator_scheme \<Rightarrow> tag \<Rightarrow> revision" where
  "valueForTag w CONSTANT_TAG = 0"
| "valueForTag w (DirtyableTag c) = cells w c"
| "valueForTag w (CombinatorTag ts) = fold max (map (valueForTag w) ts) 0"

definition validateTag :: "'w validator_scheme \<Rightarrow> tag \<Rightarrow> revision \<Rightarrow> bool" where
  "validateTag w t r = (valueForTag w t \<le> r)"

definition combine :: "tag list \<Rightarrow> tag" where
  "combine ts = (case ts of [] \<Rightarrow> CONSTANT_TAG | _ \<Rightarrow> CombinatorTag ts)"

definition consumeTag :: "tag \<Rightarrow> 'w validator_scheme \<Rightarrow> 'w validator_scheme" where
  "consumeTag t w =
     (case trackers w of
        [] \<Rightarrow> w
      | cur # outer \<Rightarrow> w\<lparr>trackers := List.insert t cur # outer\<rparr>)"

definition dirtyTag :: "nat \<Rightarrow> 'w validator_scheme \<Rightarrow> 'w validator_scheme" where
  "dirtyTag c w = w\<lparr>clock := Suc (clock w), cells := (cells w)(c := Suc (clock w))\<rparr>"

definition resetTracking :: "'w validator_scheme \<Rightarrow> 'w validator_scheme" where
  "resetTracking w = w\<lparr>trackers := []\<rparr>"

definition captured :: "'w validator_scheme \<Rightarrow> tag list" where
  "captured w = (case trackers w of [] \<Rightarrow> [] | cur # _ \<Rightarrow> cur)"

definition track ::
  "('w validator_scheme \<Rightarrow> (error + 'a) \<times> 'w validator_scheme) \<Rightarrow>
   'w validator_scheme \<Rightarrow> (error + 'a \<times> tag) \<times> 'w validator_scheme" where
  "track fn w =
     (let parent = trackers w in
      case fn (w\<lparr>trackers := [] # parent\<rparr>) of
        (Inl e, w1) \<Rightarrow> (Inl e, w1\<lparr>trackers := parent\<rparr>)
      | (Inr a, w1) \<Rightarrow> (Inr (a, combine (captured w1)), w1\<lparr>trackers := parent\<rparr>))"

section \<open>Cached references\<close>

text \<open>
  \<open>CachedReference\<close> of \<open>reference/lib/reference.ts\<close>. The three private fields are
  the record; \<open>None\<close> is JavaScript's \<open>null\<close>. The abstract method \<open>compute()\<close> is a
  parameter: it reads and writes the world and returns a value or throws.
  \<open>value()\<close> hands \<open>track\<close> a closure that stores \<open>compute()\<close>'s result in \<open>lastValue\<close>;
  here \<open>track\<close> returns that result and the field is written from it, which is the
  same store when \<open>compute()\<close> returns and no store when it throws.
\<close>

record 'v CachedReference =
  ref_tag :: tag
  lastRevision :: "revision option"
  lastValue :: "'v option"

definition new_CachedReference :: "'v CachedReference" where
  "new_CachedReference = \<lparr>ref_tag = CONSTANT_TAG, lastRevision = None, lastValue = None\<rparr>"

definition must_recompute :: "'v CachedReference \<Rightarrow> 'w validator_scheme \<Rightarrow> bool" where
  "must_recompute r w =
     (case lastRevision r of
        None \<Rightarrow> True
      | Some rv \<Rightarrow> \<not> validateTag w (ref_tag r) rv)"

definition CachedReference_value ::
  "('w validator_scheme \<Rightarrow> (error + 'v) \<times> 'w validator_scheme) \<Rightarrow>
   'v CachedReference \<Rightarrow> 'w validator_scheme \<Rightarrow>
   (error + 'v option) \<times> 'v CachedReference \<times> 'w validator_scheme" where
  "CachedReference_value compute r w =
     (if must_recompute r w then
        (case track compute w of
           (Inl e, w1) \<Rightarrow> (Inl e, r, w1)
         | (Inr (v, t), w1) \<Rightarrow>
             (Inr (Some v),
              r\<lparr>lastValue := Some v, ref_tag := t, lastRevision := Some (valueForTag w1 t)\<rparr>,
              consumeTag t w1))
      else (Inr (lastValue r), r, consumeTag (ref_tag r) w))"

definition CachedReference_isConst :: "'v CachedReference \<Rightarrow> bool" where
  "CachedReference_isConst r = (ref_tag r = CONSTANT_TAG)"


subsection \<open>Concrete inputs for cached references\<close>

text \<open>
  A world that counts the calls of \<open>compute()\<close>, a \<open>compute()\<close> that reads the reactive
  cell 0 and returns 42, and one that throws.
\<close>

record counted = validator +
  compute_calls :: nat

definition demo_world :: counted where
  "demo_world = \<lparr>clock = 2, cells = (\<lambda>_. 0)(0 := 2), trackers = [[]], compute_calls = 0\<rparr>"

definition demo_compute :: "counted \<Rightarrow> (error + nat) \<times> counted" where
  "demo_compute w = (Inr 42, consumeTag (DirtyableTag 0) (w\<lparr>compute_calls := Suc (compute_calls w)\<rparr>))"

definition throwing_compute :: "counted \<Rightarrow> (error + nat) \<times> counted" where
  "throwing_compute w =
     (Inl (Thrown ''boom''), consumeTag (DirtyableTag 0) (w\<lparr>compute_calls := Suc (compute_calls w)\<rparr>))"

definition demo_ref :: "nat CachedReference" where
  "demo_ref =
     \<lparr>ref_tag = CombinatorTag [DirtyableTag 0], lastRevision = Some 2, lastValue = Some 42\<rparr>"

definition stale_ref :: "nat CachedReference" where
  "stale_ref =
     \<lparr>ref_tag = CombinatorTag [DirtyableTag 0], lastRevision = Some 1, lastValue = Some 7\<rparr>"

section \<open>Keys of iterated items\<close>

text \<open>
  A key is any JavaScript value (\<open>unknown\<close>). What the code does with a key is compare
  it with \<open>===\<close> and ask whether it is an object, so a key is a primitive, or a reference
  to an object: some object of the application (\<open>Obj\<close>), the \<open>n\<close>-th object
  \<open>{ value, count }\<close> that \<open>identityForNthOccurence\<close> created (\<open>Identity n\<close>), or an
  updating opcode (\<open>OpcodeRef\<close>, by its handle). Two references are \<open>===\<close> exactly when
  they are equal here.
\<close>

datatype key = Prim string | Obj nat | Identity nat | OpcodeRef nat

definition isObject :: "key \<Rightarrow> bool" where
  "isObject k = (case k of Prim _ \<Rightarrow> False | _ \<Rightarrow> True)"

text \<open>\<open>WeakMapWithPrimitives\<close>: two maps, chosen by whether the key is an object.\<close>

record 'a WeakMapWithPrimitives =
  weakMap :: "key \<rightharpoonup> 'a"
  primitiveMap :: "key \<rightharpoonup> 'a"

definition new_WeakMapWithPrimitives :: "'a WeakMapWithPrimitives" where
  "new_WeakMapWithPrimitives = \<lparr>weakMap = Map.empty, primitiveMap = Map.empty\<rparr>"

definition WeakMapWithPrimitives_set ::
  "key \<Rightarrow> 'a \<Rightarrow> 'a WeakMapWithPrimitives \<Rightarrow> 'a WeakMapWithPrimitives" where
  "WeakMapWithPrimitives_set k v m =
     (if isObject k then m\<lparr>weakMap := (weakMap m)(k \<mapsto> v)\<rparr>
      else m\<lparr>primitiveMap := (primitiveMap m)(k \<mapsto> v)\<rparr>)"

definition WeakMapWithPrimitives_get :: "'a WeakMapWithPrimitives \<Rightarrow> key \<Rightarrow> 'a option" where
  "WeakMapWithPrimitives_get m k = (if isObject k then weakMap m k else primitiveMap m k)"

text \<open>
  The module-level table \<open>IDENTITIES\<close> maps a raw key to a JavaScript array of identity
  objects, indexed by the occurrence count; the array has holes (index 0 is never
  written), so it is a partial map from indices. \<open>identity_heap\<close> lists the objects
  \<open>{ value, count }\<close> in the order of their creation.
\<close>

record identities =
  identity_heap :: "(key \<times> nat) list"
  IDENTITIES :: "(nat \<rightharpoonup> key) WeakMapWithPrimitives"

definition no_identities :: identities where
  "no_identities = \<lparr>identity_heap = [], IDENTITIES = new_WeakMapWithPrimitives\<rparr>"

definition identityForNthOccurence :: "key \<Rightarrow> nat \<Rightarrow> identities \<Rightarrow> key \<times> identities" where
  "identityForNthOccurence v count g =
     (let (ids, g1) =
            (case WeakMapWithPrimitives_get (IDENTITIES g) v of
               None \<Rightarrow> (Map.empty, g\<lparr>IDENTITIES := WeakMapWithPrimitives_set v Map.empty (IDENTITIES g)\<rparr>)
             | Some ids \<Rightarrow> (ids, g))
      in case ids count of
           None \<Rightarrow>
             (let identity = Identity (length (identity_heap g1)) in
              (identity,
               g1\<lparr>identity_heap := identity_heap g1 @ [(v, count)],
                  IDENTITIES :=
                    WeakMapWithPrimitives_set v (ids(count \<mapsto> identity)) (IDENTITIES g1)\<rparr>))
         | Some identity \<Rightarrow> (identity, g1))"

text \<open>
  \<open>uniqueKeyFor(keyFor)\<close> returns a closure over a fresh table \<open>seen\<close>; the closure's
  state is that table, and a call of the closure is \<open>uniqueKeyFor_call\<close>.
\<close>

definition uniqueKeyFor_call ::
  "('v \<Rightarrow> nat \<Rightarrow> key) \<Rightarrow> 'v \<Rightarrow> nat \<Rightarrow> nat WeakMapWithPrimitives \<times> identities \<Rightarrow>
   key \<times> nat WeakMapWithPrimitives \<times> identities" where
  "uniqueKeyFor_call keyFor v memo s =
     (let (seen, g) = s;
          k = keyFor v memo;
          count = (case WeakMapWithPrimitives_get seen k of None \<Rightarrow> 0 | Some c \<Rightarrow> c);
          seen1 = WeakMapWithPrimitives_set k (count + 1) seen
      in if count = 0 then (k, seen1, g)
         else (let (identity, g1) = identityForNthOccurence k count g in (identity, seen1, g1)))"

text \<open>
  A key-assignment pass: the iterator calls the closure once for each item, in order,
  with the item and its position. A new iterator gets a new closure; \<open>IDENTITIES\<close>
  lives on.
\<close>

fun assign_keys ::
  "('v \<Rightarrow> nat \<Rightarrow> key) \<Rightarrow> 'v list \<Rightarrow> nat \<Rightarrow> nat WeakMapWithPrimitives \<times> identities \<Rightarrow>
   key list \<times> nat WeakMapWithPrimitives \<times> identities" where
  "assign_keys keyFor [] pos s = ([], s)"
| "assign_keys keyFor (v # vs) pos s =
     (let (k, s1) = uniqueKeyFor_call keyFor v pos s;
          (ks, s2) = assign_keys keyFor vs (Suc pos) s1
      in (k # ks, s2))"

definition key_pass :: "('v \<Rightarrow> nat \<Rightarrow> key) \<Rightarrow> 'v list \<Rightarrow> identities \<Rightarrow> key list \<times> identities" where
  "key_pass keyFor vs g =
     (let (ks, seen, g1) = assign_keys keyFor vs 0 (new_WeakMapWithPrimitives, g) in (ks, g1))"

text \<open>The key function of a list whose items are their own raw keys.\<close>

definition raw_key :: "key \<Rightarrow> nat \<Rightarrow> key" where
  "raw_key item index = item"

text \<open>
  The table is well formed when each entry is an identity object that was created for
  that raw key and that count.
\<close>

definition identity_at :: "identities \<Rightarrow> key \<Rightarrow> nat \<Rightarrow> key option" where
  "identity_at g v count =
     (case WeakMapWithPrimitives_get (IDENTITIES g) v of None \<Rightarrow> None | Some ids \<Rightarrow> ids count)"

definition wf_identities :: "identities \<Rightarrow> bool" where
  "wf_identities g =
     (\<forall>v count i. identity_at g v count = Some i \<longrightarrow>
        (\<exists>n. i = Identity n \<and> n < length (identity_heap g) \<and> identity_heap g ! n = (v, count)))"

section \<open>List blocks and their reconciliation\<close>

text \<open>
  The second version of the updating VM in the sources (\<open>ListItemOpcode\<close>, and
  \<open>ListBlockOpcode\<close> with \<open>sync\<close>, \<open>retainItem\<close>, \<open>insertItem\<close>, \<open>moveItem\<close> and
  \<open>deleteItem\<close>). Opcodes are objects that the children array and the key map both
  refer to, so they live in a heap and are named by handles. \<open>undefined\<close> (an array
  read past the end) is \<open>None\<close>.
\<close>

type_synonym handle = nat
type_synonym node = nat

record 'v OpaqueIterationItem =
  item_key :: key
  item_value :: 'v
  item_memo :: nat

text \<open>
  A reference to an updating opcode as its static type has it: a try block or list
  item, a list block, or any other updating opcode.
\<close>

datatype opcode_ref = TryRef handle | ListBlockRef handle | OtherRef nat

text \<open>
  \<open>ListItemOpcode extends TryOpcode extends BlockOpcode\<close>; one record holds the fields of
  all three, and a plain \<open>TryOpcode\<close> leaves the item fields unused. \<open>op_bounds\<close> lists
  the nodes of the live region in document order; \<open>op_state\<close> names the saved resumable
  VM state; \<open>op_tag\<close> is the tag that the first version of \<open>TryOpcode\<close> carries;
  \<open>destroyed\<close> counts the calls of \<open>destroy\<close> on the opcode.
\<close>

record 'v ListItemOpcode =
  op_children :: "opcode_ref list"
  op_bounds :: "node list"
  op_state :: nat
  op_tag :: tag
  op_key :: key
  op_memo :: nat
  op_value :: 'v
  retained :: bool
  seen :: bool
  destroyed :: nat

datatype event = Retain key handle | Move key handle | Insert key handle | Delete key handle

text \<open>
  What a list block mutates besides its own fields: the heap of item opcodes, the child
  nodes of its parent element, and the allocators of objects and of nodes. \<open>trace\<close>
  records the calls of \<open>retainItem\<close>, \<open>moveItem\<close>, \<open>insertItem\<close> and \<open>deleteItem\<close> (in
  the first version, of the delegate's \<open>retain\<close>, \<open>move\<close>, \<open>insert\<close> and \<open>delete\<close>) in
  order, and \<open>passes\<close> counts the reconciliation passes that were started.
\<close>

record 'v runtime =
  heap :: "handle \<Rightarrow> 'v ListItemOpcode"
  next_handle :: handle
  next_node :: node
  childNodes :: "node list"
  trace :: "event list"
  passes :: nat

text \<open>
  \<open>IterableReference extends CachedReference<boolean>\<close>. Its \<open>_iterator\<close> is \<open>None\<close> when
  \<open>null\<close>, and otherwise the items that \<open>next()\<close> has yet to return, in order (the keys
  are those that the iterator's key function assigns, see \<open>key_pass\<close>).
\<close>

record 'v IterableReference = "bool CachedReference" +
  iterator :: "'v OpaqueIterationItem list option"

definition IterableReference_isDone :: "'v IterableReference \<Rightarrow> bool" where
  "IterableReference_isDone r = (iterator r = None)"

definition IterableReference_next ::
  "'v IterableReference \<Rightarrow> error + 'v OpaqueIterationItem option \<times> 'v IterableReference" where
  "IterableReference_next r =
     (case iterator r of
        None \<Rightarrow> Inl (TypeError ''_iterator.next'')
      | Some [] \<Rightarrow> Inr (None, r\<lparr>iterator := None\<rparr>)
      | Some (item # rest) \<Rightarrow> Inr (Some item, r\<lparr>iterator := Some rest\<rparr>))"

record 'v ListBlockOpcode =
  lb_children :: "handle list"
  opcodeMap :: "key \<rightharpoonup> handle"
  marker :: "node option"
  iterableRef :: "'v IterableReference"
  lb_state :: nat

definition at_index :: "'a list \<Rightarrow> nat \<Rightarrow> 'a option" where
  "at_index xs i = (if i < length xs then Some (xs ! i) else None)"

subsection \<open>The collaborators of a list block\<close>

text \<open>
  Modelled from the spec: the bounds of a block (\<open>firstNode\<close>), \<open>move\<close> and \<open>clear\<close> of
  \<open>../bounds\<close>, \<open>destroy\<close> of \<open>../destroyables\<close>, the tree-mutation interface and the
  element builder are imported by the sources but are not among them. Sections 4.3 and
  6 of the specification give what they do: \<open>move\<close> relocates the live region of an
  opcode to just before a reference node, \<open>clear\<close> removes the region from the tree,
  \<open>destroy\<close> releases the destroy-resources of an opcode, \<open>insertBefore\<close> with no reference
  node appends, and a builder made by \<open>forInitialRender\<close> with a next sibling puts the
  nodes it renders just before that sibling. Asking an empty block for its first node
  fails an \<open>expect\<close>. A reference node that is not a child of the parent is treated as
  no reference node.
\<close>

definition firstNode :: "'v ListItemOpcode \<Rightarrow> error + node" where
  "firstNode opc =
     (case op_bounds opc of [] \<Rightarrow> Inl (ExpectFailed ''firstNode'') | n # _ \<Rightarrow> Inr n)"

definition insertBefore :: "node list \<Rightarrow> node option \<Rightarrow> node list \<Rightarrow> node list" where
  "insertBefore new reference d =
     (case reference of
        None \<Rightarrow> d @ new
      | Some n \<Rightarrow> takeWhile (\<lambda>x. x \<noteq> n) d @ new @ dropWhile (\<lambda>x. x \<noteq> n) d)"

definition removeNodes :: "node list \<Rightarrow> node list \<Rightarrow> node list" where
  "removeNodes ns d = filter (\<lambda>x. x \<notin> set ns) d"

definition moveBounds ::
  "handle \<Rightarrow> node option \<Rightarrow> ('v, 'z) runtime_scheme \<Rightarrow> ('v, 'z) runtime_scheme" where
  "moveBounds h reference rt =
     rt\<lparr>childNodes := insertBefore (op_bounds (heap rt h)) reference
                  (removeNodes (op_bounds (heap rt h)) (childNodes rt))\<rparr>"

definition clear :: "handle \<Rightarrow> ('v, 'z) runtime_scheme \<Rightarrow> ('v, 'z) runtime_scheme" where
  "clear h rt = rt\<lparr>childNodes := removeNodes (op_bounds (heap rt h)) (childNodes rt)\<rparr>"

definition destroy :: "handle \<Rightarrow> ('v, 'z) runtime_scheme \<Rightarrow> ('v, 'z) runtime_scheme" where
  "destroy h rt = rt\<lparr>heap := (heap rt)(h := (heap rt h)\<lparr>destroyed := Suc (destroyed (heap rt h))\<rparr>)\<rparr>"

subsection \<open>The methods of the list block\<close>

text \<open>
  \<open>before === undefined ? this.marker : before.firstNode()\<close>, as \<open>insertItem\<close> and
  \<open>moveItem\<close> both compute it.
\<close>

definition nextSibling_for ::
  "handle option \<Rightarrow> 'v ListBlockOpcode \<Rightarrow> ('v, 'z) runtime_scheme \<Rightarrow> error + node option" where
  "nextSibling_for target lb rt =
     (case target of
        None \<Rightarrow> Inr (marker lb)
      | Some b \<Rightarrow> (case firstNode (heap rt b) of Inl e \<Rightarrow> Inl e | Inr n \<Rightarrow> Inr (Some n)))"

definition retainItem ::
  "handle \<Rightarrow> 'v OpaqueIterationItem \<Rightarrow> 'v ListBlockOpcode \<times> ('v, 'z) runtime_scheme \<Rightarrow>
   'v ListBlockOpcode \<times> ('v, 'z) runtime_scheme" where
  "retainItem h item s =
     (let (lb, rt) = s in
      (lb\<lparr>lb_children := lb_children lb @ [h]\<rparr>,
       rt\<lparr>heap := (heap rt)(h := (heap rt h)
               \<lparr>op_memo := item_memo item, op_value := item_value item, retained := True\<rparr>),
          trace := trace rt @ [Retain (item_key item) h]\<rparr>))"

text \<open>
  \<open>render st item n\<close> stands for the VM that \<open>insertItem\<close> resumes from the saved state
  \<open>st\<close> and runs: it gives the nodes that rendering the item creates, the first free
  node being \<open>n\<close>. The new opcode is the one \<open>enterItem\<close> constructs; the updating
  opcodes of the item's own content are not modelled.
\<close>

definition insertItem ::
  "(nat \<Rightarrow> 'v OpaqueIterationItem \<Rightarrow> node \<Rightarrow> node list) \<Rightarrow> 'v OpaqueIterationItem \<Rightarrow> handle option \<Rightarrow>
   'v ListBlockOpcode \<times> ('v, 'z) runtime_scheme \<Rightarrow>
   error + 'v ListBlockOpcode \<times> ('v, 'z) runtime_scheme" where
  "insertItem render item target s =
     (let (lb, rt) = s in
      case nextSibling_for target lb rt of
        Inl e \<Rightarrow> Inl e
      | Inr nextSibling \<Rightarrow>
          (let h = next_handle rt;
               nodes = render (lb_state lb) item (next_node rt);
               opc = \<lparr>op_children = [], op_bounds = nodes, op_state = lb_state lb,
                      op_tag = CONSTANT_TAG,
                      op_key = item_key item, op_memo = item_memo item,
                      op_value = item_value item, retained = False, seen = False,
                      destroyed = 0\<rparr>
           in Inr (lb\<lparr>lb_children := lb_children lb @ [h],
                      opcodeMap := (opcodeMap lb)(item_key item \<mapsto> h)\<rparr>,
                   rt\<lparr>heap := (heap rt)(h := opc),
                      next_handle := Suc h,
                      next_node := next_node rt + length nodes,
                      childNodes := insertBefore nodes nextSibling (childNodes rt),
                      trace := trace rt @ [Insert (item_key item) h]\<rparr>)))"

definition moveItem ::
  "handle \<Rightarrow> 'v OpaqueIterationItem \<Rightarrow> handle option \<Rightarrow>
   'v ListBlockOpcode \<times> ('v, 'z) runtime_scheme \<Rightarrow>
   error + 'v ListBlockOpcode \<times> ('v, 'z) runtime_scheme" where
  "moveItem h item target s =
     (let (lb, rt) = s;
          rt1 = rt\<lparr>heap := (heap rt)(h := (heap rt h)
                  \<lparr>op_memo := item_memo item, op_value := item_value item, retained := True\<rparr>)\<rparr>
      in case nextSibling_for target lb rt1 of
           Inl e \<Rightarrow> Inl e
         | Inr nextSibling \<Rightarrow>
             (let rt2 = moveBounds h nextSibling rt1 in
              Inr (lb\<lparr>lb_children := lb_children lb @ [h]\<rparr>,
                   rt2\<lparr>trace := trace rt2 @ [Move (item_key item) h]\<rparr>)))"

definition deleteItem ::
  "handle \<Rightarrow> 'v ListBlockOpcode \<times> ('v, 'z) runtime_scheme \<Rightarrow>
   'v ListBlockOpcode \<times> ('v, 'z) runtime_scheme" where
  "deleteItem h s =
     (let (lb, rt) = s;
          rt1 = clear h (destroy h rt)
      in (lb\<lparr>opcodeMap := (opcodeMap lb)(op_key (heap rt1 h) := None)\<rparr>,
          rt1\<lparr>trace := trace rt1 @ [Delete (op_key (heap rt1 h)) h]\<rparr>))"

definition reset :: "handle \<Rightarrow> ('v, 'z) runtime_scheme \<Rightarrow> ('v, 'z) runtime_scheme" where
  "reset h rt = rt\<lparr>heap := (heap rt)(h := (heap rt h)\<lparr>retained := False, seen := False\<rparr>)\<rparr>"

text \<open>
  The inner loop of \<open>sync\<close>,
  \<open>while (opcode.key !== key) { opcode.seen = true; opcode = children[++currentOpcodeIndex]; }\<close>,
  over the old children from the current index on. Reading \<open>key\<close> of \<open>undefined\<close>, past
  the end of the array, is a \<open>TypeError\<close>.
\<close>

fun scan_forward ::
  "key \<Rightarrow> handle list \<Rightarrow> nat \<Rightarrow> (handle \<Rightarrow> 'v ListItemOpcode) \<Rightarrow>
   error + handle \<times> nat \<times> (handle \<Rightarrow> 'v ListItemOpcode)" where
  "scan_forward k [] i hp = Inl (TypeError ''opcode.key'')"
| "scan_forward k (h # hs) i hp =
     (if op_key (hp h) \<noteq> k
      then scan_forward k hs (Suc i) (hp(h := (hp h)\<lparr>seen := True\<rparr>))
      else Inr (h, i, hp))"

text \<open>
  The outer loop of \<open>sync\<close>, over the items that \<open>iterableRef.next()\<close> returns. The first
  test is the source's \<open>opcode !== undefined && opcode === item.key\<close>: it compares the
  opcode itself with the key of the item.
\<close>

fun sync_items ::
  "(nat \<Rightarrow> 'v OpaqueIterationItem \<Rightarrow> node \<Rightarrow> node list) \<Rightarrow> handle list \<Rightarrow> 'v OpaqueIterationItem list \<Rightarrow>
   nat \<Rightarrow> 'v ListBlockOpcode \<times> ('v, 'z) runtime_scheme \<Rightarrow>
   error + 'v ListBlockOpcode \<times> ('v, 'z) runtime_scheme" where
  "sync_items render children [] currentOpcodeIndex s = Inr s"
| "sync_items render children (item # rest) currentOpcodeIndex s =
     (let opcode = at_index children currentOpcodeIndex;
          k = item_key item
      in case (case opcode of None \<Rightarrow> None
               | Some h \<Rightarrow> if OpcodeRef h = k then Some h else None) of
           Some h \<Rightarrow>
             sync_items render children rest (Suc currentOpcodeIndex) (retainItem h item s)
         | None \<Rightarrow>
             (case opcodeMap (fst s) k of
                Some itemOpcode \<Rightarrow>
                  if seen (heap (snd s) itemOpcode) then
                    (case moveItem itemOpcode item opcode s of
                       Inl e \<Rightarrow> Inl e
                     | Inr s1 \<Rightarrow> sync_items render children rest currentOpcodeIndex s1)
                  else
                    (case scan_forward k (drop currentOpcodeIndex children) currentOpcodeIndex
                            (heap (snd s)) of
                       Inl e \<Rightarrow> Inl e
                     | Inr (h, i, hp) \<Rightarrow>
                         sync_items render children rest (Suc i)
                           (retainItem h item (fst s, (snd s)\<lparr>heap := hp\<rparr>)))
              | None \<Rightarrow>
                  (case insertItem render item opcode s of
                     Inl e \<Rightarrow> Inl e
                   | Inr s1 \<Rightarrow> sync_items render children rest currentOpcodeIndex s1)))"

text \<open>The closing loop of \<open>sync\<close> over the old children.\<close>

fun sync_cleanup ::
  "handle list \<Rightarrow> 'v ListBlockOpcode \<times> ('v, 'z) runtime_scheme \<Rightarrow>
   'v ListBlockOpcode \<times> ('v, 'z) runtime_scheme" where
  "sync_cleanup [] s = s"
| "sync_cleanup (h # hs) s =
     (if retained (heap (snd s) h) = False
      then sync_cleanup hs (deleteItem h s)
      else sync_cleanup hs (fst s, reset h (snd s)))"

text \<open>
  \<open>sync\<close>. It is private and \<open>evaluate\<close> calls it only when the iterator is not done; on
  a \<open>null\<close> iterator \<open>iterableRef.next()\<close> would read \<open>next\<close> of \<open>null\<close>. The outer loop
  takes the items in the order in which \<open>next()\<close> returns them and ends when \<open>next()\<close>
  returns \<open>null\<close>, which is also when the reference drops its iterator.
\<close>

definition ListBlockOpcode_sync ::
  "(nat \<Rightarrow> 'v OpaqueIterationItem \<Rightarrow> node \<Rightarrow> node list) \<Rightarrow>
   'v ListBlockOpcode \<times> ('v, 'z) runtime_scheme \<Rightarrow>
   error + 'v ListBlockOpcode \<times> ('v, 'z) runtime_scheme" where
  "ListBlockOpcode_sync render s =
     (let (lb, rt) = s in
      case iterator (iterableRef lb) of
        None \<Rightarrow> Inl (TypeError ''_iterator.next'')
      | Some items \<Rightarrow>
          (let children = lb_children lb in
           case sync_items render children items 0
                  (lb\<lparr>lb_children := [], iterableRef := (iterableRef lb)\<lparr>iterator := None\<rparr>\<rparr>,
                   rt\<lparr>passes := Suc (passes rt)\<rparr>) of
             Inl e \<Rightarrow> Inl e
           | Inr s1 \<Rightarrow> Inr (sync_cleanup children s1)))"

subsection \<open>Reading the trace, and the invariants of a pass\<close>














section \<open>The updating VM\<close>

text \<open>
  \<open>UpdatingVMFrame\<close> and \<open>UpdatingVM\<close> of the second version. The VM record extends the
  runtime record, so that the methods of the list block run on it. \<open>list_blocks\<close> is
  the heap of the \<open>ListBlockOpcode\<close> objects and \<open>world\<close> the global state of the tag
  system. The stack of frames has its top at the head of the list.
\<close>

record frame =
  ops :: "opcode_ref list"
  current :: nat
  exceptionHandler :: "handle option"

record ('v, 'w) UpdatingVM = "'v runtime" +
  frameStack :: "frame list"
  list_blocks :: "handle \<Rightarrow> 'v ListBlockOpcode"
  world :: "'w validator_scheme"
  alwaysRevalidate :: bool

definition new_UpdatingVMFrame :: "opcode_ref list \<Rightarrow> handle option \<Rightarrow> frame" where
  "new_UpdatingVMFrame os handler = \<lparr>ops = os, current = 0, exceptionHandler = handler\<rparr>"

definition UpdatingVMFrame_nextStatement :: "frame \<Rightarrow> opcode_ref option \<times> frame" where
  "UpdatingVMFrame_nextStatement f = (at_index (ops f) (current f), f\<lparr>current := Suc (current f)\<rparr>)"

definition UpdatingVM_try ::
  "opcode_ref list \<Rightarrow> handle option \<Rightarrow> ('v, 'w) UpdatingVM \<Rightarrow> ('v, 'w) UpdatingVM" where
  "UpdatingVM_try os handler vm = vm\<lparr>frameStack := new_UpdatingVMFrame os handler # frameStack vm\<rparr>"

text \<open>\<open>BlockOpcode.evaluate\<close>: \<open>vm.try(this.children, null)\<close>.\<close>

definition BlockOpcode_evaluate ::
  "opcode_ref list \<Rightarrow> ('v, 'w) UpdatingVM \<Rightarrow> ('v, 'w) UpdatingVM" where
  "BlockOpcode_evaluate children vm = UpdatingVM_try children None vm"

text \<open>\<open>TryOpcode.evaluate\<close>: \<open>vm.try(this.children, this)\<close>.\<close>

definition TryOpcode_evaluate :: "handle \<Rightarrow> ('v, 'w) UpdatingVM \<Rightarrow> ('v, 'w) UpdatingVM" where
  "TryOpcode_evaluate h vm = UpdatingVM_try (op_children (heap vm h)) (Some h) vm"

subsection \<open>Re-rendering a try block\<close>









subsection \<open>Evaluating a list block\<close>

text \<open>
  Modelled from the spec: \<open>createComment\<close>, \<open>insertAfter\<close> and \<open>removeChild\<close> of the
  tree-mutation interface and \<open>lastNode\<close> of the bounds of a list (\<open>LiveBlockList\<close>) are
  not among the sources. A new comment is the first free node; the last node of a
  list is the last node of its last child, and there is none when the list has no
  child or the child no node.
\<close>

definition lastNode :: "handle list \<Rightarrow> (handle \<Rightarrow> 'v ListItemOpcode) \<Rightarrow> node option" where
  "lastNode children hp =
     (case children of
        [] \<Rightarrow> None
      | _ \<Rightarrow> (case op_bounds (hp (last children)) of [] \<Rightarrow> None | ns \<Rightarrow> Some (last ns)))"

definition insertAfter :: "node \<Rightarrow> node \<Rightarrow> node list \<Rightarrow> node list" where
  "insertAfter new reference d =
     takeWhile (\<lambda>x. x \<noteq> reference) d @
     (case dropWhile (\<lambda>x. x \<noteq> reference) d of [] \<Rightarrow> [new] | r # rest \<Rightarrow> r # new # rest)"

definition removeChild :: "node \<Rightarrow> node list \<Rightarrow> node list" where
  "removeChild n d = removeNodes [n] d"

text \<open>
  \<open>ListBlockOpcode.evaluate\<close> of the second version, for the list block \<open>b\<close>. A failed
  \<open>expect\<close> or a failed pass leaves the VM as it was before the call: what a pass has
  done before it fails is not modelled.
\<close>

definition ListBlockOpcode_evaluate ::
  "(nat \<Rightarrow> 'v OpaqueIterationItem \<Rightarrow> node \<Rightarrow> node list) \<Rightarrow> handle \<Rightarrow> ('v, 'w) UpdatingVM \<Rightarrow>
   (error + unit) \<times> ('v, 'w) UpdatingVM" where
  "ListBlockOpcode_evaluate render b vm =
     (let lb = list_blocks vm b in
      if IterableReference_isDone (iterableRef lb) = False then
        (let m = next_node vm;
             vm1 = vm\<lparr>next_node := Suc m\<rparr>
         in case lastNode (lb_children lb) (heap vm1) of
              None \<Rightarrow> (Inl (ExpectFailed ''can't insert after an empty bounds''), vm)
            | Some ln \<Rightarrow>
                (case ListBlockOpcode_sync render
                        (lb\<lparr>marker := Some m\<rparr>, vm1\<lparr>childNodes := insertAfter m ln (childNodes vm1)\<rparr>) of
                   Inl e \<Rightarrow> (Inl e, vm)
                 | Inr (lb1, vm2) \<Rightarrow>
                     (let vm3 = vm2\<lparr>childNodes := removeChild m (childNodes vm2)\<rparr>;
                          lb2 = lb1\<lparr>marker := None\<rparr>;
                          vm4 = vm3\<lparr>list_blocks := (list_blocks vm3)(b := lb2)\<rparr>
                      in (Inr (), BlockOpcode_evaluate (map TryRef (lb_children lb2)) vm4))))
      else (Inr (), BlockOpcode_evaluate (map TryRef (lb_children lb)) vm))"

subsection \<open>The main loop\<close>

text \<open>
  \<open>opcode.evaluate(vm)\<close>, by the class of the opcode. The updating opcodes that are
  not blocks are not among the sources: \<open>other n\<close> is what evaluating the opcode \<open>n\<close>
  does to the tag system, and whether it throws.
\<close>

fun evaluate ::
  "(nat \<Rightarrow> 'w validator_scheme \<Rightarrow> (error + unit) \<times> 'w validator_scheme) \<Rightarrow>
   (nat \<Rightarrow> 'v OpaqueIterationItem \<Rightarrow> node \<Rightarrow> node list) \<Rightarrow>
   opcode_ref \<Rightarrow> ('v, 'w) UpdatingVM \<Rightarrow> (error + unit) \<times> ('v, 'w) UpdatingVM" where
  "evaluate other render (TryRef h) vm = (Inr (), TryOpcode_evaluate h vm)"
| "evaluate other render (ListBlockRef b) vm = ListBlockOpcode_evaluate render b vm"
| "evaluate other render (OtherRef n) vm =
     (case other n (world vm) of (r, w) \<Rightarrow> (r, vm\<lparr>world := w\<rparr>))"

text \<open>
  The loop of \<open>UpdatingVM.execute\<close> with its \<open>catch\<close>: \<open>resetTracking(); throw e\<close>. The
  loop need not end (an opcode may be its own child), so the result is an option.
\<close>

partial_function (option) execute_loop ::
  "(nat \<Rightarrow> 'w validator_scheme \<Rightarrow> (error + unit) \<times> 'w validator_scheme) \<Rightarrow>
   (nat \<Rightarrow> 'v OpaqueIterationItem \<Rightarrow> node \<Rightarrow> node list) \<Rightarrow>
   ('v, 'w) UpdatingVM \<Rightarrow> ((error + unit) \<times> ('v, 'w) UpdatingVM) option" where
  "execute_loop other render vm =
     (case frameStack vm of
        [] \<Rightarrow> Some (Inr (), vm)
      | f # fs \<Rightarrow>
          (case UpdatingVMFrame_nextStatement f of
             (None, f1) \<Rightarrow> execute_loop other render (vm\<lparr>frameStack := fs\<rparr>)
           | (Some opcode, f1) \<Rightarrow>
               (case evaluate other render opcode (vm\<lparr>frameStack := f1 # fs\<rparr>) of
                  (Inl e, vm1) \<Rightarrow> Some (Inl e, vm1\<lparr>world := resetTracking (world vm1)\<rparr>)
                | (Inr u, vm1) \<Rightarrow> execute_loop other render vm1)))"

definition UpdatingVM_execute ::
  "(nat \<Rightarrow> 'w validator_scheme \<Rightarrow> (error + unit) \<times> 'w validator_scheme) \<Rightarrow>
   (nat \<Rightarrow> 'v OpaqueIterationItem \<Rightarrow> node \<Rightarrow> node list) \<Rightarrow>
   opcode_ref list \<Rightarrow> handle option \<Rightarrow> ('v, 'w) UpdatingVM \<Rightarrow>
   ((error + unit) \<times> ('v, 'w) UpdatingVM) option" where
  "UpdatingVM_execute other render opcodes handler vm =
     execute_loop other render (UpdatingVM_try opcodes handler vm)"

section \<open>The first version of the list block\<close>

text \<open>
  The first version of the updating VM in the sources keeps a tag and a revision in
  the list block and leaves the reconciliation to an \<open>IteratorSynchronizer\<close>, which
  drives a \<open>ListRevalidationDelegate\<close>. The linked list of children is a list of
  handles. The constant \<open>END\<close> of \<open>@glimmer/reference\<close> is not among the sources: it is
  a key that no item has, here a fixed primitive.
\<close>

definition END :: key where
  "END = Prim ''END''"

record 'v ListBlockOpcode_v1 =
  v1_children :: "handle list"
  v1_map :: "key \<rightharpoonup> handle"
  artifacts_tag :: tag
  lastIterated :: revision
  v1_tag :: tag
  v1_state :: nat

text \<open>
  The delegate shares \<open>map\<close> and \<open>children\<close> with its opcode; here it holds the opcode,
  which \<open>evaluate\<close> takes back when the pass is over.
\<close>

record 'v ListRevalidationDelegate =
  d_opcode :: "'v ListBlockOpcode_v1"
  d_marker :: node
  didInsert :: bool
  didDelete :: bool

text \<open>
  \<open>insert\<close>: \<open>reference = map.get(before)\<close>, and the next sibling is the first node of
  \<open>reference\<close>, or the marker when there is no such opcode. \<open>LinkedList.insertBefore\<close>
  with no reference appends.
\<close>

definition ListRevalidationDelegate_insert ::
  "(nat \<Rightarrow> 'v OpaqueIterationItem \<Rightarrow> node \<Rightarrow> node list) \<Rightarrow> key \<Rightarrow> 'v \<Rightarrow> nat \<Rightarrow> key \<Rightarrow>
   'v ListRevalidationDelegate \<times> ('v, 'z) runtime_scheme \<Rightarrow>
   error + 'v ListRevalidationDelegate \<times> ('v, 'z) runtime_scheme" where
  "ListRevalidationDelegate_insert render k item memo target s =
     (let (d, rt) = s;
          opc = d_opcode d;
          reference = v1_map opc target
      in case (case reference of
                 None \<Rightarrow> Inr (d_marker d)
               | Some r \<Rightarrow> firstNode (heap rt r)) of
           Inl e \<Rightarrow> Inl e
         | Inr nextSibling \<Rightarrow>
             (let h = next_handle rt;
                  nodes = render (v1_state opc)
                            \<lparr>item_key = k, item_value = item, item_memo = memo\<rparr> (next_node rt);
                  tryOpcode = \<lparr>op_children = [], op_bounds = nodes, op_state = v1_state opc,
                      op_tag = CONSTANT_TAG, op_key = k, op_memo = memo, op_value = item,
                      retained = False, seen = False, destroyed = 0\<rparr>
              in Inr (d\<lparr>d_opcode := opc\<lparr>v1_map := (v1_map opc)(k \<mapsto> h),
                           v1_children := insertBefore [h] reference (v1_children opc)\<rparr>,
                         didInsert := True\<rparr>,
                      rt\<lparr>heap := (heap rt)(h := tryOpcode),
                         next_handle := Suc h,
                         next_node := next_node rt + length nodes,
                         childNodes := insertBefore nodes (Some nextSibling) (childNodes rt),
                         trace := trace rt @ [Insert k h]\<rparr>)))"

text \<open>\<open>retain\<close> has an empty body.\<close>

definition ListRevalidationDelegate_retain ::
  "key \<Rightarrow> 'v \<Rightarrow> nat \<Rightarrow> 'v ListRevalidationDelegate \<times> ('v, 'z) runtime_scheme \<Rightarrow>
   'v ListRevalidationDelegate \<times> ('v, 'z) runtime_scheme" where
  "ListRevalidationDelegate_retain k item memo s = s"

text \<open>
  \<open>move\<close>. \<open>map.get(key)!\<close> and \<open>map.get(before)!\<close> are unchecked: a missing entry is
  \<open>undefined\<close>, and moving it, or asking it for its first node, is a \<open>TypeError\<close>.
\<close>

definition ListRevalidationDelegate_move ::
  "key \<Rightarrow> 'v \<Rightarrow> nat \<Rightarrow> key \<Rightarrow> 'v ListRevalidationDelegate \<times> ('v, 'z) runtime_scheme \<Rightarrow>
   error + 'v ListRevalidationDelegate \<times> ('v, 'z) runtime_scheme" where
  "ListRevalidationDelegate_move k item memo target s =
     (let (d, rt) = s; opc = d_opcode d in
      case v1_map opc k of
        None \<Rightarrow> Inl (TypeError ''entry'')
      | Some entry \<Rightarrow>
          if target = END then
            (let rt1 = moveBounds entry (Some (d_marker d)) rt
             in Inr (d\<lparr>d_opcode := opc\<lparr>v1_children := removeNodes [entry] (v1_children opc) @ [entry]\<rparr>\<rparr>,
                     rt1\<lparr>trace := trace rt1 @ [Move k entry]\<rparr>))
          else
            (case v1_map opc target of
               None \<Rightarrow> Inl (TypeError ''reference.firstNode'')
             | Some reference \<Rightarrow>
                 (case firstNode (heap rt reference) of
                    Inl e \<Rightarrow> Inl e
                  | Inr n \<Rightarrow>
                      (let rt1 = moveBounds entry (Some n) rt
                       in Inr (d\<lparr>d_opcode := opc\<lparr>v1_children :=
                                    insertBefore [entry] (Some reference)
                                      (removeNodes [entry] (v1_children opc))\<rparr>\<rparr>,
                               rt1\<lparr>trace := trace rt1 @ [Move k entry]\<rparr>)))))"

definition ListRevalidationDelegate_delete ::
  "key \<Rightarrow> 'v ListRevalidationDelegate \<times> ('v, 'z) runtime_scheme \<Rightarrow>
   error + 'v ListRevalidationDelegate \<times> ('v, 'z) runtime_scheme" where
  "ListRevalidationDelegate_delete k s =
     (let (d, rt) = s; opc = d_opcode d in
      case v1_map opc k of
        None \<Rightarrow> Inl (TypeError ''opcode'')
      | Some h \<Rightarrow>
          (let rt1 = clear h (destroy h rt)
           in Inr (d\<lparr>d_opcode := opc\<lparr>v1_children := removeNodes [h] (v1_children opc),
                        v1_map := (v1_map opc)(k := None)\<rparr>,
                      didDelete := True\<rparr>,
                   rt1\<lparr>trace := trace rt1 @ [Delete k h]\<rparr>)))"

text \<open>
  \<open>ListBlockOpcode.didInitializeChildren(listDidChange)\<close> of the first version;
  \<open>combineSlice\<close> of \<open>../utils/tags\<close> combines the tags of the opcodes of a list.
\<close>

definition ListBlockOpcode_v1_didInitializeChildren ::
  "bool \<Rightarrow> 'w validator_scheme \<Rightarrow> (handle \<Rightarrow> 'v ListItemOpcode) \<Rightarrow>
   'v ListBlockOpcode_v1 \<Rightarrow> 'v ListBlockOpcode_v1" where
  "ListBlockOpcode_v1_didInitializeChildren listDidChange w hp opc =
     (let opc1 = opc\<lparr>lastIterated := valueForTag w (artifacts_tag opc)\<rparr>
      in if listDidChange
         then opc1\<lparr>v1_tag := combine (map (\<lambda>h. op_tag (hp h)) (v1_children opc1))\<rparr>
         else opc1)"

definition ListRevalidationDelegate_done ::
  "'w validator_scheme \<Rightarrow> 'v ListRevalidationDelegate \<times> ('v, 'z) runtime_scheme \<Rightarrow>
   'v ListRevalidationDelegate \<times> ('v, 'z) runtime_scheme" where
  "ListRevalidationDelegate_done w s =
     (let (d, rt) = s in
      (d\<lparr>d_opcode := ListBlockOpcode_v1_didInitializeChildren (didInsert d \<or> didDelete d) w
                          (heap rt) (d_opcode d)\<rparr>, rt))"

text \<open>
  Modelled from the spec: \<open>IteratorSynchronizer\<close> of \<open>@glimmer/reference\<close> is not among the
  sources. By sections 4.3 and 4.4 of the specification one pass issues insert, retain,
  move and delete operations and the list block then records its new baseline; the
  operations a pass decides on are the parameter \<open>calls\<close>, performed in order on the
  delegate and followed by \<open>done()\<close>.
\<close>

datatype 'v delegate_call =
    CallInsert key 'v nat key
  | CallRetain key 'v nat
  | CallMove key 'v nat key
  | CallDelete key

fun perform_call ::
  "(nat \<Rightarrow> 'v OpaqueIterationItem \<Rightarrow> node \<Rightarrow> node list) \<Rightarrow> 'v delegate_call \<Rightarrow>
   'v ListRevalidationDelegate \<times> ('v, 'z) runtime_scheme \<Rightarrow>
   error + 'v ListRevalidationDelegate \<times> ('v, 'z) runtime_scheme" where
  "perform_call render (CallInsert k item memo target) s =
     ListRevalidationDelegate_insert render k item memo target s"
| "perform_call render (CallRetain k item memo) s =
     Inr (ListRevalidationDelegate_retain k item memo s)"
| "perform_call render (CallMove k item memo target) s =
     ListRevalidationDelegate_move k item memo target s"
| "perform_call render (CallDelete k) s = ListRevalidationDelegate_delete k s"

fun perform_calls ::
  "(nat \<Rightarrow> 'v OpaqueIterationItem \<Rightarrow> node \<Rightarrow> node list) \<Rightarrow> 'v delegate_call list \<Rightarrow>
   'v ListRevalidationDelegate \<times> ('v, 'z) runtime_scheme \<Rightarrow>
   error + 'v ListRevalidationDelegate \<times> ('v, 'z) runtime_scheme" where
  "perform_calls render [] s = Inr s"
| "perform_calls render (c # cs) s =
     (case perform_call render c s of Inl e \<Rightarrow> Inl e | Inr s1 \<Rightarrow> perform_calls render cs s1)"

definition IteratorSynchronizer_sync ::
  "(nat \<Rightarrow> 'v OpaqueIterationItem \<Rightarrow> node \<Rightarrow> node list) \<Rightarrow> 'v delegate_call list \<Rightarrow>
   'w validator_scheme \<Rightarrow> 'v ListRevalidationDelegate \<times> ('v, 'z) runtime_scheme \<Rightarrow>
   error + 'v ListRevalidationDelegate \<times> ('v, 'z) runtime_scheme" where
  "IteratorSynchronizer_sync render calls w s =
     (case perform_calls render calls (fst s, (snd s)\<lparr>passes := Suc (passes (snd s))\<rparr>) of
        Inl e \<Rightarrow> Inl e
      | Inr s1 \<Rightarrow> Inr (ListRevalidationDelegate_done w s1))"

text \<open>
  \<open>ListBlockOpcode.evaluate\<close> of the first version. The opcode is passed and returned
  by value.
\<close>

definition ListBlockOpcode_v1_evaluate ::
  "(nat \<Rightarrow> 'v OpaqueIterationItem \<Rightarrow> node \<Rightarrow> node list) \<Rightarrow> 'v delegate_call list \<Rightarrow>
   'v ListBlockOpcode_v1 \<Rightarrow> ('v, 'w) UpdatingVM \<Rightarrow>
   error + 'v ListBlockOpcode_v1 \<times> ('v, 'w) UpdatingVM" where
  "ListBlockOpcode_v1_evaluate render calls opc vm =
     (if \<not> validateTag (world vm) (artifacts_tag opc) (lastIterated opc) then
        (let m = next_node vm;
             vm1 = vm\<lparr>next_node := Suc m\<rparr>
         in case lastNode (v1_children opc) (heap vm1) of
              None \<Rightarrow> Inl (ExpectFailed ''can't insert after an empty bounds'')
            | Some ln \<Rightarrow>
                (case IteratorSynchronizer_sync render calls (world vm1)
                        (\<lparr>d_opcode = opc, d_marker = m, didInsert = False, didDelete = False\<rparr>,
                         vm1\<lparr>childNodes := insertAfter m ln (childNodes vm1)\<rparr>) of
                   Inl e \<Rightarrow> Inl e
                 | Inr (d, vm2) \<Rightarrow>
                     Inr (d_opcode d,
                          BlockOpcode_evaluate (map TryRef (v1_children (d_opcode d)))
                            (vm2\<lparr>childNodes := removeChild m (childNodes vm2)\<rparr>))))
      else Inr (opc, BlockOpcode_evaluate (map TryRef (v1_children opc)) vm))"

subsection \<open>Runs of the main loop\<close>

text \<open>
  \<open>iterations other render vm vm1\<close>: the loop of \<open>execute\<close>, started in \<open>vm\<close>, comes to
  the head of the loop in \<open>vm1\<close> after some iterations in which nothing was thrown.
\<close>

inductive iterations ::
  "(nat \<Rightarrow> 'w validator_scheme \<Rightarrow> (error + unit) \<times> 'w validator_scheme) \<Rightarrow>
   (nat \<Rightarrow> 'v OpaqueIterationItem \<Rightarrow> node \<Rightarrow> node list) \<Rightarrow>
   ('v, 'w) UpdatingVM \<Rightarrow> ('v, 'w) UpdatingVM \<Rightarrow> bool"
  for other render where
    here: "iterations other render vm vm"
  | popped: "frameStack vm = f # fs \<Longrightarrow> at_index (ops f) (current f) = None \<Longrightarrow>
      iterations other render (vm\<lparr>frameStack := fs\<rparr>) vm1 \<Longrightarrow>
      iterations other render vm vm1"
  | evaluated: "frameStack vm = f # fs \<Longrightarrow> at_index (ops f) (current f) = Some opcode \<Longrightarrow>
      evaluate other render opcode (vm\<lparr>frameStack := f\<lparr>current := Suc (current f)\<rparr> # fs\<rparr>) =
        (Inr u, vm2) \<Longrightarrow>
      iterations other render vm2 vm1 \<Longrightarrow>
      iterations other render vm vm1"

text \<open>
  \<open>untouched rt rt1\<close>: a step from \<open>rt\<close> to \<open>rt1\<close> has changed nothing beyond the heap, the
  child nodes, the allocators and the trace: the pass counter and the fields of the VM
  (the frames, the list blocks, the tag system) are the same.
\<close>

definition untouched :: "('v, 'z) runtime_scheme \<Rightarrow> ('v, 'z) runtime_scheme \<Rightarrow> bool" where
  "untouched rt rt1 = (runtime.more rt1 = runtime.more rt \<and> passes rt1 = passes rt)"

subsection \<open>Concrete inputs for list blocks\<close>

text \<open>
  Items and item opcodes with string keys; a renderer that creates one node for an
  item; a list block with the one child \<open>a\<close> and an iterator that yields nothing; a list
  block with the children \<open>k1\<close>, \<open>k2\<close>, \<open>k3\<close> (the objects 0, 1, 2 with the nodes 10, 11,
  12) and an iterator that yields \<open>k2\<close>, \<open>k3\<close>, \<open>k1\<close>. The node 99 is the marker.
\<close>

definition mk_item :: "string \<Rightarrow> nat \<Rightarrow> nat \<Rightarrow> nat OpaqueIterationItem" where
  "mk_item k v m = \<lparr>item_key = Prim k, item_value = v, item_memo = m\<rparr>"

definition mk_op :: "string \<Rightarrow> nat \<Rightarrow> nat \<Rightarrow> node list \<Rightarrow> nat ListItemOpcode" where
  "mk_op k v m ns =
     \<lparr>op_children = [], op_bounds = ns, op_state = 0, op_tag = CONSTANT_TAG, op_key = Prim k,
      op_memo = m, op_value = v, retained = False, seen = False, destroyed = 0\<rparr>"

definition render_one :: "nat \<Rightarrow> nat OpaqueIterationItem \<Rightarrow> node \<Rightarrow> node list" where
  "render_one st item n = [n]"

definition pending :: "nat OpaqueIterationItem list \<Rightarrow> nat IterableReference" where
  "pending items =
     \<lparr>ref_tag = DirtyableTag 0, lastRevision = Some 2, lastValue = Some True,
      iterator = Some items\<rparr>"



definition rotate_rt :: "nat runtime" where
  "rotate_rt =
     \<lparr>heap = (\<lambda>_. mk_op [] 0 0 [])
        (0 := mk_op ''k1'' 1 0 [10], 1 := mk_op ''k2'' 2 1 [11], 2 := mk_op ''k3'' 3 2 [12]),
      next_handle = 3, next_node = 100, childNodes = [10, 11, 12, 99], trace = [], passes = 0\<rparr>"

definition rotate_lb :: "nat ListBlockOpcode" where
  "rotate_lb =
     \<lparr>lb_children = [0, 1, 2],
      opcodeMap = [Prim ''k1'' \<mapsto> 0, Prim ''k2'' \<mapsto> 1, Prim ''k3'' \<mapsto> 2],
      marker = Some 99,
      iterableRef = pending [mk_item ''k2'' 2 0, mk_item ''k3'' 3 1, mk_item ''k1'' 1 2],
      lb_state = 0\<rparr>"

text \<open>
  The same list as a list block of the first version, whose collection tag (cell 0,
  at revision 2 in \<open>demo_world\<close>) has moved past the revision 1 of the last pass, and a
  delegate for it with the marker 99.
\<close>

definition rotate_v1 :: "nat ListBlockOpcode_v1" where
  "rotate_v1 =
     \<lparr>v1_children = [0, 1, 2],
      v1_map = [Prim ''k1'' \<mapsto> 0, Prim ''k2'' \<mapsto> 1, Prim ''k3'' \<mapsto> 2],
      artifacts_tag = DirtyableTag 0, lastIterated = 1, v1_tag = CONSTANT_TAG, v1_state = 0\<rparr>"

definition rotate_delegate :: "nat ListRevalidationDelegate" where
  "rotate_delegate =
     \<lparr>d_opcode = rotate_v1, d_marker = 99, didInsert = False, didDelete = False\<rparr>"

subsection \<open>Concrete inputs for the updating VM\<close>

text \<open>
  A VM whose heap holds three blocks: the try block 0, with the nodes 10 and 11, whose
  children are the block 1 (with the node 11) and the opcode \<open>OtherRef 0\<close>, and the
  block 2 (with the node 12), which is no child of it. Under \<open>throwing_other\<close>,
  evaluating \<open>OtherRef 0\<close> enters a tracking frame and throws. Under \<open>resume_one\<close> a
  re-rendered block has one new node and one new, empty try block.
\<close>

definition empty_block :: "nat ListItemOpcode" where
  "empty_block =
     \<lparr>op_children = [], op_bounds = [], op_state = 0, op_tag = CONSTANT_TAG,
      op_key = Prim [], op_memo = 0, op_value = 0, retained = False, seen = False,
      destroyed = 0\<rparr>"

definition try_block :: "nat ListItemOpcode" where
  "try_block = empty_block\<lparr>op_children := [TryRef 1, OtherRef 0], op_bounds := [10, 11]\<rparr>"

definition idle_list_block :: "nat ListBlockOpcode" where
  "idle_list_block =
     \<lparr>lb_children = [], opcodeMap = Map.empty, marker = None,
      iterableRef = \<lparr>ref_tag = CONSTANT_TAG, lastRevision = None, lastValue = None,
                      iterator = None\<rparr>,
      lb_state = 0\<rparr>"

definition demo_vm :: "(nat, \<lparr>compute_calls :: nat\<rparr>) UpdatingVM" where
  "demo_vm =
     \<lparr>heap = (\<lambda>_. empty_block)
        (0 := try_block, 1 := empty_block\<lparr>op_bounds := [11]\<rparr>,
         2 := empty_block\<lparr>op_bounds := [12]\<rparr>),
      next_handle = 3, next_node = 100, childNodes = [10, 11, 12], trace = [], passes = 0,
      frameStack = [], list_blocks = (\<lambda>_. idle_list_block), world = demo_world,
      alwaysRevalidate = False\<rparr>"

definition throwing_other :: "nat \<Rightarrow> counted \<Rightarrow> (error + unit) \<times> counted" where
  "throwing_other n w = (Inl (Thrown ''boom''), w\<lparr>trackers := [] # trackers w\<rparr>)"


text \<open>
  A VM for the list of \<open>rotate_rt\<close>: the three item opcodes with the nodes 10, 11, 12,
  no marker yet, and the tag system of \<open>demo_world\<close>, in which the cell 0 is at revision
  2. Its list block (of the second version) holds the iterator of \<open>rotate_lb\<close>; in
  \<open>stale_vm\<close> the iterable reference was computed at revision 1 and holds no iterator.
  \<open>rotate_calls\<close> are the operations by which a synchronizer of the first version takes
  the list to the order \<open>k2\<close>, \<open>k3\<close>, \<open>k1\<close>.
\<close>

definition rotate_vm :: "(nat, \<lparr>compute_calls :: nat\<rparr>) UpdatingVM" where
  "rotate_vm =
     \<lparr>heap = heap rotate_rt, next_handle = 3, next_node = 100, childNodes = [10, 11, 12],
      trace = [], passes = 0, frameStack = [],
      list_blocks = (\<lambda>_. rotate_lb\<lparr>marker := None\<rparr>), world = demo_world,
      alwaysRevalidate = False\<rparr>"

definition stale_iterable :: "nat IterableReference" where
  "stale_iterable =
     \<lparr>ref_tag = DirtyableTag 0, lastRevision = Some 1, lastValue = Some True, iterator = None\<rparr>"

definition stale_vm :: "(nat, \<lparr>compute_calls :: nat\<rparr>) UpdatingVM" where
  "stale_vm =
     rotate_vm\<lparr>list_blocks := (\<lambda>_. rotate_lb\<lparr>marker := None, iterableRef := stale_iterable\<rparr>)\<rparr>"

definition rotate_calls :: "nat delegate_call list" where
  "rotate_calls =
     [CallRetain (Prim ''k2'') 2 0, CallRetain (Prim ''k3'') 3 1, CallMove (Prim ''k1'') 1 2 END]"

section \<open>Theorems: cached references\<close>

lemma valueForTag_trackers_update [simp]:
  "valueForTag (w\<lparr>trackers := ts\<rparr>) t = valueForTag w t"
  by (induction w t rule: valueForTag.induct) (simp_all cong: map_cong)

text \<open>
  Claim C1. A call of \<open>value()\<close> on a reference that has a baseline revision against which
  its tag validates returns the stored \<open>lastValue\<close> itself, leaves the reference as it is
  and does not run \<open>compute\<close>: the world changes by \<open>consumeTag\<close> of the cached tag only.
  Otherwise, when \<open>compute\<close> returns \<open>v\<close>, it has run once, in the world whose tracker stack
  has a fresh empty frame on top; the reference then holds \<open>v\<close>, the combination \<open>t\<close> of the
  tags captured in that frame and \<open>valueForTag t\<close>, the outer frames are restored, and
  \<open>consumeTag t\<close> is applied before \<open>v\<close> is returned.
\<close>

theorem CachedReference_value_cases:
  fixes compute :: "'w validator_scheme \<Rightarrow> (error + 'v) \<times> 'w validator_scheme"
  shows
  "(lastRevision r = Some rv \<and> validateTag w (ref_tag r) rv \<longrightarrow>
      CachedReference_value compute r w = (Inr (lastValue r), r, consumeTag (ref_tag r) w))
   \<and> (\<not> (\<exists>rv. lastRevision r = Some rv \<and> validateTag w (ref_tag r) rv) \<and>
        compute (w\<lparr>trackers := [] # trackers w\<rparr>) = (Inr v, w1) \<longrightarrow>
        (let t = combine (captured w1); w2 = w1\<lparr>trackers := trackers w\<rparr> in
         CachedReference_value compute r w =
           (Inr (Some v),
            \<lparr>ref_tag = t, lastRevision = Some (valueForTag w2 t), lastValue = Some v\<rparr>,
            consumeTag t w2)))"
  by (cases r) (auto simp: CachedReference_value_def must_recompute_def track_def Let_def
      split: option.splits)

theorem CachedReference_value_cases_witness:
  "CachedReference_value demo_compute new_CachedReference demo_world =
     (Inr (Some 42), demo_ref,
      demo_world\<lparr>trackers := [[CombinatorTag [DirtyableTag 0]]], compute_calls := 1\<rparr>)
   \<and> CachedReference_value demo_compute demo_ref (demo_world\<lparr>compute_calls := 1\<rparr>) =
     (Inr (Some 42), demo_ref,
      demo_world\<lparr>trackers := [[CombinatorTag [DirtyableTag 0]]], compute_calls := 1\<rparr>)"
proof -
  have fresh: "\<not> (\<exists>rv. lastRevision (new_CachedReference :: nat CachedReference) = Some rv \<and>
      validateTag demo_world (ref_tag (new_CachedReference :: nat CachedReference)) rv)"
    by (simp add: new_CachedReference_def)
  have run: "demo_compute (demo_world\<lparr>trackers := [] # trackers demo_world\<rparr>) =
      (Inr 42, demo_world\<lparr>trackers := [[DirtyableTag 0], []], compute_calls := 1\<rparr>)"
    by (simp add: demo_compute_def demo_world_def consumeTag_def)
  have valid: "lastRevision demo_ref = Some 2 \<and>
      validateTag (demo_world\<lparr>compute_calls := 1\<rparr>) (ref_tag demo_ref) 2"
    by (simp add: demo_ref_def demo_world_def validateTag_def)
  from CachedReference_value_cases
    [where r = "new_CachedReference :: nat CachedReference" and w = demo_world
       and compute = demo_compute and v = 42
       and ?w1.0 = "demo_world\<lparr>trackers := [[DirtyableTag 0], []], compute_calls := 1\<rparr>"]
    fresh run
  have first: "CachedReference_value demo_compute new_CachedReference demo_world =
     (Inr (Some 42), demo_ref,
      demo_world\<lparr>trackers := [[CombinatorTag [DirtyableTag 0]]], compute_calls := 1\<rparr>)"
    by (simp add: Let_def captured_def combine_def consumeTag_def demo_world_def demo_ref_def)
  from CachedReference_value_cases
    [where r = demo_ref and rv = 2 and w = "demo_world\<lparr>compute_calls := 1\<rparr>"
       and compute = demo_compute] valid
  have second: "CachedReference_value demo_compute demo_ref (demo_world\<lparr>compute_calls := 1\<rparr>) =
     (Inr (Some 42), demo_ref,
      demo_world\<lparr>trackers := [[CombinatorTag [DirtyableTag 0]]], compute_calls := 1\<rparr>)"
    by (simp add: consumeTag_def demo_world_def demo_ref_def)
  from first second show ?thesis by simp
qed

text \<open>
  Claim C8, as the specification states it: after a \<open>value()\<close> call whose \<open>compute()\<close>
  throws, the cached state is unset. It is not when an earlier call had succeeded: the
  reference below holds the value 7 at revision 1, its cell has moved on to revision 2,
  \<open>compute()\<close> throws, and the reference still holds 7 at revision 1.
\<close>

theorem CachedReference_value_throw_counterexample:
  "fst (CachedReference_value throwing_compute stale_ref demo_world) = Inl (Thrown ''boom'')
   \<and> lastValue (fst (snd (CachedReference_value throwing_compute stale_ref demo_world))) = Some 7
   \<and> lastRevision (fst (snd (CachedReference_value throwing_compute stale_ref demo_world))) = Some 1"
  by (simp add: CachedReference_value_def must_recompute_def track_def validateTag_def
      throwing_compute_def stale_ref_def demo_world_def consumeTag_def)

text \<open>
  Claim C8, amended. When \<open>value()\<close> has to recompute and \<open>compute()\<close> throws \<open>e\<close>, the call
  throws \<open>e\<close>, the three cached fields are exactly what they were before the call (unset
  when no call had succeeded before, the earlier baseline otherwise: no new value, tag or
  revision is stored), and the tracker stack is the one the call started with.
\<close>

theorem CachedReference_value_compute_throws:
  fixes compute :: "'w validator_scheme \<Rightarrow> (error + 'v) \<times> 'w validator_scheme"
  assumes "must_recompute r w"
    and "compute (w\<lparr>trackers := [] # trackers w\<rparr>) = (Inl e, w1)"
  shows "CachedReference_value compute r w = (Inl e, r, w1\<lparr>trackers := trackers w\<rparr>)"
  using assms by (simp add: CachedReference_value_def track_def)

theorem CachedReference_value_compute_throws_witness:
  "must_recompute (new_CachedReference :: nat CachedReference) demo_world
   \<and> CachedReference_value throwing_compute new_CachedReference demo_world =
       (Inl (Thrown ''boom''), new_CachedReference, demo_world\<lparr>compute_calls := 1\<rparr>)
   \<and> must_recompute stale_ref demo_world
   \<and> CachedReference_value throwing_compute stale_ref demo_world =
       (Inl (Thrown ''boom''), stale_ref, demo_world\<lparr>compute_calls := 1\<rparr>)"
proof -
  have m1: "must_recompute (new_CachedReference :: nat CachedReference) demo_world"
    by (simp add: must_recompute_def new_CachedReference_def)
  have m2: "must_recompute stale_ref demo_world"
    by (simp add: must_recompute_def stale_ref_def validateTag_def demo_world_def)
  have run: "throwing_compute (demo_world\<lparr>trackers := [] # trackers demo_world\<rparr>) =
      (Inl (Thrown ''boom''), demo_world\<lparr>trackers := [[DirtyableTag 0], []], compute_calls := 1\<rparr>)"
    by (simp add: throwing_compute_def demo_world_def consumeTag_def)
  have restored: "demo_world\<lparr>trackers := [[DirtyableTag 0], []], compute_calls := 1,
      trackers := trackers demo_world\<rparr> = demo_world\<lparr>compute_calls := 1\<rparr>"
    by (simp add: demo_world_def)
  from CachedReference_value_compute_throws
         [where compute = throwing_compute and r = "new_CachedReference :: nat CachedReference",
          OF m1 run]
       CachedReference_value_compute_throws
         [where compute = throwing_compute and r = stale_ref, OF m2 run]
       m1 m2 restored
  show ?thesis by simp
qed

text \<open>
  Claim C10. A fresh reference is constant. When a call of \<open>value()\<close> takes a constant
  reference to one that is not, the call recomputed: \<open>compute()\<close> returned, and the new tag
  is the combination of the tags captured while it ran, which is not the constant tag.
\<close>

theorem CachedReference_isConst_fresh:
  fixes compute :: "'w validator_scheme \<Rightarrow> (error + 'v) \<times> 'w validator_scheme"
  shows
  "CachedReference_isConst (new_CachedReference :: 'v CachedReference)
   \<and> (CachedReference_isConst r \<and> CachedReference_value compute r w = (res, r', w') \<and>
        \<not> CachedReference_isConst r' \<longrightarrow>
      must_recompute r w \<and>
      (\<exists>v w1. compute (w\<lparr>trackers := [] # trackers w\<rparr>) = (Inr v, w1) \<and> res = Inr (Some v) \<and>
         ref_tag r' = combine (captured w1) \<and> combine (captured w1) \<noteq> CONSTANT_TAG))"
  by (auto simp: CachedReference_isConst_def new_CachedReference_def CachedReference_value_def
      track_def Let_def split: if_splits prod.splits sum.splits)

theorem CachedReference_isConst_fresh_witness:
  "CachedReference_isConst (new_CachedReference :: nat CachedReference)
   \<and> CachedReference_value demo_compute new_CachedReference demo_world =
       (Inr (Some 42), demo_ref,
        demo_world\<lparr>trackers := [[CombinatorTag [DirtyableTag 0]]], compute_calls := 1\<rparr>)
   \<and> \<not> CachedReference_isConst demo_ref
   \<and> must_recompute (new_CachedReference :: nat CachedReference) demo_world"
proof -
  have run: "CachedReference_value demo_compute new_CachedReference demo_world =
       (Inr (Some 42), demo_ref,
        demo_world\<lparr>trackers := [[CombinatorTag [DirtyableTag 0]]], compute_calls := 1\<rparr>)"
    by (simp add: CachedReference_value_def must_recompute_def new_CachedReference_def
        track_def demo_compute_def demo_world_def consumeTag_def captured_def combine_def
        demo_ref_def)
  have nc: "\<not> CachedReference_isConst demo_ref"
    by (simp add: CachedReference_isConst_def demo_ref_def)
  from CachedReference_isConst_fresh
    [where r = "new_CachedReference :: nat CachedReference" and compute = demo_compute
       and w = demo_world and res = "Inr (Some 42)" and r' = demo_ref
       and w' = "demo_world\<lparr>trackers := [[CombinatorTag [DirtyableTag 0]]], compute_calls := 1\<rparr>"]
    run nc
  show ?thesis by simp
qed

section \<open>Theorems: keys of iterated items\<close>

lemma get_set [simp]:
  "WeakMapWithPrimitives_get (WeakMapWithPrimitives_set k v m) k' =
     (if k' = k then Some v else WeakMapWithPrimitives_get m k')"
  by (auto simp: WeakMapWithPrimitives_get_def WeakMapWithPrimitives_set_def)

lemma get_new [simp]: "WeakMapWithPrimitives_get new_WeakMapWithPrimitives k = None"
  by (simp add: WeakMapWithPrimitives_get_def new_WeakMapWithPrimitives_def)

lemma identityForNthOccurence_hit:
  assumes "identity_at g v c = Some i"
  shows "identityForNthOccurence v c g = (i, g)"
  using assms
  by (auto simp: identityForNthOccurence_def identity_at_def split: option.splits)

lemma identityForNthOccurence_miss:
  assumes "identity_at g v c = None" and "identityForNthOccurence v c g = (i, g1)"
  shows "i = Identity (length (identity_heap g))"
    and "identity_heap g1 = identity_heap g @ [(v, c)]"
    and "identity_at g1 v' c' = (if v' = v \<and> c' = c then Some i else identity_at g v' c')"
  using assms
  by (auto simp: identityForNthOccurence_def identity_at_def Let_def
      split: option.splits if_splits)

lemma identityForNthOccurence_spec:
  assumes "wf_identities g" and "identityForNthOccurence v c g = (i, g1)"
  shows "wf_identities g1 \<and> identity_at g1 v c = Some i \<and>
     (\<exists>n. i = Identity n \<and> n < length (identity_heap g1) \<and> identity_heap g1 ! n = (v, c)) \<and>
     (\<forall>v' c' j. identity_at g v' c' = Some j \<longrightarrow> identity_at g1 v' c' = Some j)"
proof (cases "identity_at g v c")
  case None
  note m = identityForNthOccurence_miss [OF None assms(2)]
  have "wf_identities g1"
    unfolding wf_identities_def
  proof (intro allI impI)
    fix v' c' j assume "identity_at g1 v' c' = Some j"
    then show "\<exists>n. j = Identity n \<and> n < length (identity_heap g1) \<and> identity_heap g1 ! n = (v', c')"
      using assms(1) m by (fastforce simp: wf_identities_def nth_append split: if_splits)
  qed
  moreover have "\<forall>v' c' j. identity_at g v' c' = Some j \<longrightarrow> identity_at g1 v' c' = Some j"
    using None m(3) by auto
  ultimately show ?thesis using m by (simp add: nth_append)
next
  case (Some j)
  with identityForNthOccurence_hit [OF Some] assms show ?thesis
    by (auto simp: wf_identities_def)
qed

lemma uniqueKeyFor_call_first:
  "WeakMapWithPrimitives_get tbl (keyFor v memo) = None \<Longrightarrow>
   uniqueKeyFor_call keyFor v memo (tbl, g) =
     (keyFor v memo, WeakMapWithPrimitives_set (keyFor v memo) 1 tbl, g)"
  by (simp add: uniqueKeyFor_call_def Let_def)

lemma uniqueKeyFor_call_again:
  "WeakMapWithPrimitives_get tbl (keyFor v memo) = Some c \<Longrightarrow> 0 < c \<Longrightarrow>
   uniqueKeyFor_call keyFor v memo (tbl, g) =
     (fst (identityForNthOccurence (keyFor v memo) c g),
      WeakMapWithPrimitives_set (keyFor v memo) (Suc c) tbl,
      snd (identityForNthOccurence (keyFor v memo) c g))"
  by (simp add: uniqueKeyFor_call_def Let_def split: prod.splits)

lemma key_pass_abaa:
  assumes "a \<noteq> b"
  shows "key_pass raw_key [a, b, a, a] g =
     (let (i1, g1) = identityForNthOccurence a 1 g;
          (i2, g2) = identityForNthOccurence a 2 g1
      in ([a, b, i1, i2], g2))"
  using assms
  by (simp add: key_pass_def uniqueKeyFor_call_first uniqueKeyFor_call_again raw_key_def
      eval_nat_numeral split: prod.splits)

lemma key_pass_aaba:
  assumes "a \<noteq> b"
  shows "key_pass raw_key [a, a, b, a] g =
     (let (i1, g1) = identityForNthOccurence a 1 g;
          (i2, g2) = identityForNthOccurence a 2 g1
      in ([a, i1, b, i2], g2))"
  using assms
  by (simp add: key_pass_def uniqueKeyFor_call_first uniqueKeyFor_call_again raw_key_def
      eval_nat_numeral split: prod.splits)

text \<open>
  Claim C4. For raw keys \<open>a \<noteq> b\<close> and any well-formed table \<open>IDENTITIES\<close>, the pass over
  \<open>[a, b, a, a]\<close> assigns \<open>[a, b, a#1, a#2]\<close>: the first occurrence keeps the raw key, and
  the second and third get two different identity objects, created for \<open>(a, 1)\<close> and for
  \<open>(a, 2)\<close>. A following pass over \<open>[a, a, b, a]\<close> gives its positions 0 and 1 (the first
  two occurrences of \<open>a\<close>) the keys that positions 0 and 2 (the first two occurrences of
  \<open>a\<close>) had in the first pass, and its third occurrence the object \<open>a#2\<close> again.
\<close>

theorem duplicate_key_disambiguation:
  assumes "wf_identities g" and "a \<noteq> b"
  shows "\<exists>n1 n2. n1 \<noteq> n2 \<and>
     fst (key_pass raw_key [a, b, a, a] g) = [a, b, Identity n1, Identity n2] \<and>
     identity_heap (snd (key_pass raw_key [a, b, a, a] g)) ! n1 = (a, 1) \<and>
     identity_heap (snd (key_pass raw_key [a, b, a, a] g)) ! n2 = (a, 2) \<and>
     fst (key_pass raw_key [a, a, b, a] (snd (key_pass raw_key [a, b, a, a] g))) =
       [a, Identity n1, b, Identity n2]"
proof -
  obtain i1 g1 where s1: "identityForNthOccurence a 1 g = (i1, g1)" by force
  obtain i2 g2 where s2: "identityForNthOccurence a 2 g1 = (i2, g2)" by force
  note p1 = identityForNthOccurence_spec [OF assms(1) s1]
  then have wf1: "wf_identities g1" by simp
  note p2 = identityForNthOccurence_spec [OF wf1 s2]
  from p1 obtain n1 where n1: "i1 = Identity n1" by auto
  from p2 obtain n2 where n2: "i2 = Identity n2" "n2 < length (identity_heap g2)"
     "identity_heap g2 ! n2 = (a, 2)" by auto
  have at1: "identity_at g2 a 1 = Some i1" using p1 p2 by blast
  have at2: "identity_at g2 a 2 = Some i2" using p2 by blast
  have wf2: "wf_identities g2" using p2 by simp
  from wf2 at1 n1 have h1: "identity_heap g2 ! n1 = (a, 1)"
    by (auto simp: wf_identities_def)
  have ne: "n1 \<noteq> n2" using h1 n2 by auto
  have first: "key_pass raw_key [a, b, a, a] g = ([a, b, i1, i2], g2)"
    using s1 s2 by (simp add: key_pass_abaa [OF assms(2)])
  have r1: "identityForNthOccurence a 1 g2 = (i1, g2)"
    by (rule identityForNthOccurence_hit [OF at1])
  have r2: "identityForNthOccurence a 2 g2 = (i2, g2)"
    by (rule identityForNthOccurence_hit [OF at2])
  have second: "key_pass raw_key [a, a, b, a] g2 = ([a, i1, b, i2], g2)"
    using r1 r2 by (simp add: key_pass_aaba [OF assms(2)])
  show ?thesis using first second n1 n2 h1 ne by auto
qed

theorem duplicate_key_disambiguation_witness:
  "wf_identities no_identities \<and> Prim ''a'' \<noteq> Prim ''b'' \<and>
   fst (key_pass raw_key [Prim ''a'', Prim ''b'', Prim ''a'', Prim ''a''] no_identities) =
     [Prim ''a'', Prim ''b'', Identity 0, Identity 1] \<and>
   fst (key_pass raw_key [Prim ''a'', Prim ''a'', Prim ''b'', Prim ''a'']
         (snd (key_pass raw_key [Prim ''a'', Prim ''b'', Prim ''a'', Prim ''a''] no_identities))) =
     [Prim ''a'', Identity 0, Prim ''b'', Identity 1]"
proof -
  have wf: "wf_identities no_identities"
    by (simp add: wf_identities_def identity_at_def no_identities_def)
  have ne: "Prim ''a'' \<noteq> Prim ''b''" by simp
  have first: "fst (key_pass raw_key [Prim ''a'', Prim ''b'', Prim ''a'', Prim ''a''] no_identities) =
     [Prim ''a'', Prim ''b'', Identity 0, Identity 1]"
    by (simp add: key_pass_def uniqueKeyFor_call_def identityForNthOccurence_def no_identities_def
      raw_key_def Let_def)
  from duplicate_key_disambiguation [OF wf ne] first wf ne show ?thesis
    by auto
qed


section \<open>Theorems: reconciliation\<close>

lemma at_index_drop:
  "at_index xs i = (case drop i xs of [] \<Rightarrow> None | x # _ \<Rightarrow> Some x)"
  by (auto simp: at_index_def split: list.splits simp: hd_drop_conv_nth dest: arg_cong [where f = hd])



























text \<open>
  Claim C3. The list block with the children \<open>k1\<close>, \<open>k2\<close>, \<open>k3\<close> (the opcode objects 0, 1,
  2, with the nodes 10, 11, 12, before the marker 99) is reconciled with the items \<open>k2\<close>,
  \<open>k3\<close>, \<open>k1\<close>. The pass performs a retain of \<open>k2\<close>, a retain of \<open>k3\<close> and a move of
  \<open>k1\<close>, and nothing else: no insert and no delete. The children are then the objects 1,
  2, 0, which still carry the keys \<open>k2\<close>, \<open>k3\<close>, \<open>k1\<close>; no object was created
  (\<open>next_handle\<close> is still 3) and none destroyed; the node of \<open>k1\<close> has moved to the end,
  just before the marker, and the nodes of \<open>k2\<close> and \<open>k3\<close> have not moved.
\<close>

theorem rotate_scenario:
  "map_sum id (\<lambda>s. (trace (snd s), lb_children (fst s), childNodes (snd s), next_handle (snd s),
       map (\<lambda>h. op_key (heap (snd s) h)) [1, 2, 0],
       map (\<lambda>h. destroyed (heap (snd s) h)) [1, 2, 0],
       map (opcodeMap (fst s)) [Prim ''k2'', Prim ''k3'', Prim ''k1'']))
     (ListBlockOpcode_sync render_one (rotate_lb, rotate_rt)) =
   Inr ([Retain (Prim ''k2'') 1, Retain (Prim ''k3'') 2, Move (Prim ''k1'') 0],
        [1, 2, 0], [11, 12, 10, 99], 3,
        [Prim ''k2'', Prim ''k3'', Prim ''k1''], [0, 0, 0], [Some 1, Some 2, Some 0])"
  by (simp add: ListBlockOpcode_sync_def rotate_lb_def rotate_rt_def pending_def mk_op_def mk_item_def
      at_index_def retainItem_def moveItem_def nextSibling_for_def moveBounds_def insertBefore_def
      removeNodes_def reset_def Let_def)

section \<open>Theorems: where inserted and moved items go\<close>

lemma insertBefore_at:
  assumes "d = pre @ n # post" and "n \<notin> set pre"
  shows "insertBefore new (Some n) d = pre @ new @ n # post"
proof -
  have "takeWhile (\<lambda>x. x \<noteq> n) (pre @ n # post) = pre"
    using assms(2) by (induction pre) auto
  moreover have "dropWhile (\<lambda>x. x \<noteq> n) (pre @ n # post) = n # post"
    using assms(2) by (induction pre) auto
  ultimately show ?thesis by (simp add: insertBefore_def assms(1))
qed

text \<open>
  Claim C9. \<open>insertItem\<close> and \<open>moveItem\<close> of the second version, and \<open>insert\<close> of the
  delegate of the first version, place the nodes of the item in the child nodes of the
  parent as follows. With no target opcode (\<open>before\<close> is \<open>undefined\<close>, or the key map of
  the first version has no opcode for it, as for \<open>END\<close>) the nodes come immediately
  before the marker, which \<open>evaluate\<close> has put after the last node of the list for the
  time of the pass. With a target opcode they come immediately before the first node
  of that opcode. For a move the nodes are those of the moved opcode, taken out of
  their old place; for an insert they are the nodes that rendering the item creates.
\<close>

theorem insert_and_move_position:
  "(marker lb = Some m \<and> childNodes rt = pre @ m # post \<and> m \<notin> set pre \<longrightarrow>
      (\<exists>lb1 rt1. insertItem render item None (lb, rt) = Inr (lb1, rt1) \<and>
         childNodes rt1 = pre @ render (lb_state lb) item (next_node rt) @ m # post))
   \<and> (op_bounds (heap rt b) = n # ns \<and> childNodes rt = pre @ n # post \<and> n \<notin> set pre \<longrightarrow>
      (\<exists>lb1 rt1. insertItem render item (Some b) (lb, rt) = Inr (lb1, rt1) \<and>
         childNodes rt1 = pre @ render (lb_state lb) item (next_node rt) @ n # post))
   \<and> (marker lb = Some m \<and> removeNodes (op_bounds (heap rt h)) (childNodes rt) = pre @ m # post \<and>
        m \<notin> set pre \<longrightarrow>
      (\<exists>lb1 rt1. moveItem h item None (lb, rt) = Inr (lb1, rt1) \<and>
         childNodes rt1 = pre @ op_bounds (heap rt h) @ m # post))
   \<and> (op_bounds (heap rt b) = n # ns \<and>
        removeNodes (op_bounds (heap rt h)) (childNodes rt) = pre @ n # post \<and> n \<notin> set pre \<longrightarrow>
      (\<exists>lb1 rt1. moveItem h item (Some b) (lb, rt) = Inr (lb1, rt1) \<and>
         childNodes rt1 = pre @ op_bounds (heap rt h) @ n # post))
   \<and> (v1_map (d_opcode d) target = None \<and> childNodes rt = pre @ d_marker d # post \<and>
        d_marker d \<notin> set pre \<longrightarrow>
      (\<exists>d1 rt1. ListRevalidationDelegate_insert render k v memo target (d, rt) = Inr (d1, rt1) \<and>
         childNodes rt1 = pre @ render (v1_state (d_opcode d))
                          \<lparr>item_key = k, item_value = v, item_memo = memo\<rparr> (next_node rt)
                   @ d_marker d # post))
   \<and> (v1_map (d_opcode d) target = Some b \<and> op_bounds (heap rt b) = n # ns \<and>
        childNodes rt = pre @ n # post \<and> n \<notin> set pre \<longrightarrow>
      (\<exists>d1 rt1. ListRevalidationDelegate_insert render k v memo target (d, rt) = Inr (d1, rt1) \<and>
         childNodes rt1 = pre @ render (v1_state (d_opcode d))
                          \<lparr>item_key = k, item_value = v, item_memo = memo\<rparr> (next_node rt)
                   @ n # post))"
proof (intro conjI impI)
  assume "marker lb = Some m \<and> childNodes rt = pre @ m # post \<and> m \<notin> set pre"
  then show "\<exists>lb1 rt1. insertItem render item None (lb, rt) = Inr (lb1, rt1) \<and>
         childNodes rt1 = pre @ render (lb_state lb) item (next_node rt) @ m # post"
    by (simp add: insertItem_def nextSibling_for_def Let_def insertBefore_at)
next
  assume "op_bounds (heap rt b) = n # ns \<and> childNodes rt = pre @ n # post \<and> n \<notin> set pre"
  then show "\<exists>lb1 rt1. insertItem render item (Some b) (lb, rt) = Inr (lb1, rt1) \<and>
         childNodes rt1 = pre @ render (lb_state lb) item (next_node rt) @ n # post"
    by (simp add: insertItem_def nextSibling_for_def firstNode_def Let_def insertBefore_at)
next
  assume "marker lb = Some m \<and> removeNodes (op_bounds (heap rt h)) (childNodes rt) = pre @ m # post \<and>
        m \<notin> set pre"
  then show "\<exists>lb1 rt1. moveItem h item None (lb, rt) = Inr (lb1, rt1) \<and>
         childNodes rt1 = pre @ op_bounds (heap rt h) @ m # post"
    by (simp add: moveItem_def nextSibling_for_def Let_def moveBounds_def insertBefore_at)
next
  assume a: "op_bounds (heap rt b) = n # ns \<and>
        removeNodes (op_bounds (heap rt h)) (childNodes rt) = pre @ n # post \<and> n \<notin> set pre"
  let ?hp = "(heap rt)(h := (heap rt h)
       \<lparr>op_memo := item_memo item, op_value := item_value item, retained := True\<rparr>)"
  have "op_bounds (?hp b) = n # ns" using a by (cases "b = h") auto
  moreover have "op_bounds (?hp h) = op_bounds (heap rt h)" by simp
  ultimately show "\<exists>lb1 rt1. moveItem h item (Some b) (lb, rt) = Inr (lb1, rt1) \<and>
         childNodes rt1 = pre @ op_bounds (heap rt h) @ n # post"
    using a
    by (simp add: moveItem_def nextSibling_for_def firstNode_def Let_def moveBounds_def
        insertBefore_at del: fun_upd_apply)
next
  assume "v1_map (d_opcode d) target = None \<and> childNodes rt = pre @ d_marker d # post \<and>
        d_marker d \<notin> set pre"
  then show "\<exists>d1 rt1. ListRevalidationDelegate_insert render k v memo target (d, rt) = Inr (d1, rt1) \<and>
         childNodes rt1 = pre @ render (v1_state (d_opcode d))
                          \<lparr>item_key = k, item_value = v, item_memo = memo\<rparr> (next_node rt)
                   @ d_marker d # post"
    by (simp add: ListRevalidationDelegate_insert_def Let_def insertBefore_at)
next
  assume "v1_map (d_opcode d) target = Some b \<and> op_bounds (heap rt b) = n # ns \<and>
        childNodes rt = pre @ n # post \<and> n \<notin> set pre"
  then show "\<exists>d1 rt1. ListRevalidationDelegate_insert render k v memo target (d, rt) = Inr (d1, rt1) \<and>
         childNodes rt1 = pre @ render (v1_state (d_opcode d))
                          \<lparr>item_key = k, item_value = v, item_memo = memo\<rparr> (next_node rt)
                   @ n # post"
    by (simp add: ListRevalidationDelegate_insert_def firstNode_def Let_def insertBefore_at)
qed

theorem insert_and_move_position_witness:
  "(\<exists>lb1 rt1. insertItem render_one (mk_item ''x'' 9 3) None (rotate_lb, rotate_rt) = Inr (lb1, rt1) \<and>
      childNodes rt1 = [10, 11, 12, 100, 99])
   \<and> (\<exists>lb1 rt1. insertItem render_one (mk_item ''x'' 9 3) (Some 1) (rotate_lb, rotate_rt) = Inr (lb1, rt1) \<and>
      childNodes rt1 = [10, 100, 11, 12, 99])
   \<and> (\<exists>lb1 rt1. moveItem 0 (mk_item ''k1'' 1 2) None (rotate_lb, rotate_rt) = Inr (lb1, rt1) \<and>
      childNodes rt1 = [11, 12, 10, 99])
   \<and> (\<exists>lb1 rt1. moveItem 0 (mk_item ''k1'' 1 1) (Some 2) (rotate_lb, rotate_rt) = Inr (lb1, rt1) \<and>
      childNodes rt1 = [11, 10, 12, 99])
   \<and> (\<exists>d1 rt1. ListRevalidationDelegate_insert render_one (Prim ''x'') 9 3 END
         (rotate_delegate, rotate_rt) = Inr (d1, rt1) \<and>
      childNodes rt1 = [10, 11, 12, 100, 99])
   \<and> (\<exists>d1 rt1. ListRevalidationDelegate_insert render_one (Prim ''x'') 9 1 (Prim ''k2'')
         (rotate_delegate, rotate_rt) = Inr (d1, rt1) \<and>
      childNodes rt1 = [10, 100, 11, 12, 99])"
proof -
  have c1: "\<exists>lb1 rt1. insertItem render_one (mk_item ''x'' 9 3) None (rotate_lb, rotate_rt) = Inr (lb1, rt1) \<and>
      childNodes rt1 = [10, 11, 12, 100, 99]"
    using insert_and_move_position [where lb = rotate_lb and rt = rotate_rt and m = 99
        and pre = "[10, 11, 12]" and post = "[]" and render = render_one
        and item = "mk_item ''x'' 9 3"]
    by (simp add: rotate_lb_def rotate_rt_def render_one_def)
  have c2: "\<exists>lb1 rt1. insertItem render_one (mk_item ''x'' 9 3) (Some 1) (rotate_lb, rotate_rt) = Inr (lb1, rt1) \<and>
      childNodes rt1 = [10, 100, 11, 12, 99]"
    using insert_and_move_position [where lb = rotate_lb and rt = rotate_rt and b = 1
        and n = 11 and ns = "[]" and pre = "[10]" and post = "[12, 99]" and render = render_one
        and item = "mk_item ''x'' 9 3"]
    by (simp add: rotate_lb_def rotate_rt_def render_one_def mk_op_def)
  have c3: "\<exists>lb1 rt1. moveItem 0 (mk_item ''k1'' 1 2) None (rotate_lb, rotate_rt) = Inr (lb1, rt1) \<and>
      childNodes rt1 = [11, 12, 10, 99]"
    using insert_and_move_position [where lb = rotate_lb and rt = rotate_rt and m = 99
        and h = 0 and pre = "[11, 12]" and post = "[]" and item = "mk_item ''k1'' 1 2"]
    by (simp add: rotate_lb_def rotate_rt_def mk_op_def removeNodes_def)
  have c4: "\<exists>lb1 rt1. moveItem 0 (mk_item ''k1'' 1 1) (Some 2) (rotate_lb, rotate_rt) = Inr (lb1, rt1) \<and>
      childNodes rt1 = [11, 10, 12, 99]"
    using insert_and_move_position [where rt = rotate_rt and lb = rotate_lb and b = 2
        and n = 12 and ns = "[]" and h = 0 and pre = "[11]" and post = "[99]"
        and item = "mk_item ''k1'' 1 1"]
    by (simp add: rotate_rt_def mk_op_def removeNodes_def)
  have c5: "\<exists>d1 rt1. ListRevalidationDelegate_insert render_one (Prim ''x'') 9 3 END
         (rotate_delegate, rotate_rt) = Inr (d1, rt1) \<and>
      childNodes rt1 = [10, 11, 12, 100, 99]"
    using insert_and_move_position [where d = rotate_delegate and rt = rotate_rt and target = END
        and pre = "[10, 11, 12]" and post = "[]" and render = render_one
        and k = "Prim ''x''" and v = 9 and memo = 3]
    by (simp add: rotate_delegate_def rotate_v1_def rotate_rt_def render_one_def END_def)
  have c6: "\<exists>d1 rt1. ListRevalidationDelegate_insert render_one (Prim ''x'') 9 1 (Prim ''k2'')
         (rotate_delegate, rotate_rt) = Inr (d1, rt1) \<and>
      childNodes rt1 = [10, 100, 11, 12, 99]"
    using insert_and_move_position [where d = rotate_delegate and rt = rotate_rt
        and target = "Prim ''k2''" and b = 1 and n = 11 and ns = "[]"
        and pre = "[10]" and post = "[12, 99]" and render = render_one
        and k = "Prim ''x''" and v = 9 and memo = 1]
    by (simp add: rotate_delegate_def rotate_v1_def rotate_rt_def render_one_def mk_op_def)
  from c1 c2 c3 c4 c5 c6 show ?thesis by blast
qed


section \<open>Theorems: the updating VM\<close>

lemma execute_loop_iterations:
  assumes "iterations other render vm vm1"
  shows "execute_loop other render vm = execute_loop other render vm1"
  using assms
proof (induction rule: iterations.induct)
  case (here vm)
  show ?case by simp
next
  case (popped vm f fs vm1)
  have "execute_loop other render vm = execute_loop other render (vm\<lparr>frameStack := fs\<rparr>)"
    by (subst execute_loop.simps) (simp add: popped.hyps UpdatingVMFrame_nextStatement_def)
  then show ?case using popped.IH by simp
next
  case (evaluated vm f fs opcode u vm2 vm1)
  have "execute_loop other render vm = execute_loop other render vm2"
    by (subst execute_loop.simps) (simp add: evaluated.hyps UpdatingVMFrame_nextStatement_def)
  then show ?case using evaluated.IH by simp
qed

text \<open>
  Claim C7. Take any run of \<open>execute(opcodes, handler)\<close> that, after some iterations in
  which nothing was thrown, evaluates an opcode that throws \<open>e\<close>. Then \<open>execute\<close> ends
  and throws \<open>e\<close> to its caller, and the tracking state it leaves is the one that
  \<open>resetTracking\<close> makes of the state at the throw: no tracking frame is open. This
  holds for any frames on the stack, so in particular when none has a handler.
\<close>

theorem execute_propagates_and_resets:
  assumes run: "iterations other render (UpdatingVM_try opcodes handler vm) vm1"
    and top: "frameStack vm1 = f # fs"
    and nxt: "at_index (ops f) (current f) = Some opcode"
    and thr: "evaluate other render opcode (vm1\<lparr>frameStack := f\<lparr>current := Suc (current f)\<rparr> # fs\<rparr>) =
        (Inl e, vm2)"
  shows "\<exists>vm3. UpdatingVM_execute other render opcodes handler vm = Some (Inl e, vm3) \<and>
     world vm3 = resetTracking (world vm2) \<and> trackers (world vm3) = []"
proof -
  have "execute_loop other render vm1 = Some (Inl e, vm2\<lparr>world := resetTracking (world vm2)\<rparr>)"
    by (subst execute_loop.simps) (simp add: top nxt thr UpdatingVMFrame_nextStatement_def)
  with execute_loop_iterations [OF run]
  have "UpdatingVM_execute other render opcodes handler vm =
      Some (Inl e, vm2\<lparr>world := resetTracking (world vm2)\<rparr>)"
    by (simp add: UpdatingVM_execute_def)
  then show ?thesis by (simp add: resetTracking_def)
qed

theorem execute_propagates_and_resets_witness:
  "iterations throwing_other render_one (UpdatingVM_try [OtherRef 0] None demo_vm)
     (UpdatingVM_try [OtherRef 0] None demo_vm)
   \<and> (\<exists>vm3. UpdatingVM_execute throwing_other render_one [OtherRef 0] None demo_vm =
         Some (Inl (Thrown ''boom''), vm3) \<and> trackers (world vm3) = [])
   \<and> trackers (world (snd (evaluate throwing_other render_one (OtherRef 0)
         (UpdatingVM_try [OtherRef 0] None demo_vm)))) = [[], []]"
proof -
  let ?vm1 = "UpdatingVM_try [OtherRef 0] None demo_vm"
  let ?f = "new_UpdatingVMFrame [OtherRef 0] None"
  let ?vm2 = "demo_vm\<lparr>frameStack := [?f\<lparr>current := Suc 0\<rparr>],
      world := demo_world\<lparr>trackers := [[], []]\<rparr>\<rparr>"
  have run: "iterations throwing_other render_one ?vm1 ?vm1" by (rule iterations.here)
  have top: "frameStack ?vm1 = ?f # []"
    by (simp add: UpdatingVM_try_def demo_vm_def)
  have nxt: "at_index (ops ?f) (current ?f) = Some (OtherRef 0)"
    by (simp add: new_UpdatingVMFrame_def at_index_def)
  have thr: "evaluate throwing_other render_one (OtherRef 0)
      (?vm1\<lparr>frameStack := ?f\<lparr>current := Suc (current ?f)\<rparr> # []\<rparr>) = (Inl (Thrown ''boom''), ?vm2)"
    by (simp add: UpdatingVM_try_def demo_vm_def throwing_other_def demo_world_def
        new_UpdatingVMFrame_def)
  have tr: "trackers (world (snd (evaluate throwing_other render_one (OtherRef 0) ?vm1))) = [[], []]"
    by (simp add: UpdatingVM_try_def demo_vm_def throwing_other_def demo_world_def)
  from execute_propagates_and_resets [OF run top nxt thr] run tr
  show ?thesis by auto
qed


section \<open>Theorems: what a pass leaves alone\<close>

lemma more_eq_fields:
  fixes r r' :: "('v, 'w) UpdatingVM"
  assumes "runtime.more r = runtime.more r'"
  shows "frameStack r = frameStack r'" and "list_blocks r = list_blocks r'"
    and "world r = world r'" and "alwaysRevalidate r = alwaysRevalidate r'"
  using assms by (cases r; cases r'; simp)+

lemma untouched_refl [simp]: "untouched rt rt"
  by (simp add: untouched_def)

lemma untouched_trans: "untouched a b \<Longrightarrow> untouched b c \<Longrightarrow> untouched a c"
  by (simp add: untouched_def)

lemma untouched_retainItem: "untouched (snd s) (snd (retainItem h item s))"
  by (simp add: retainItem_def untouched_def split_def)

lemma untouched_moveItem: "moveItem h item t s = Inr s1 \<Longrightarrow> untouched (snd s) (snd s1)"
  by (auto simp: moveItem_def untouched_def split_def Let_def moveBounds_def split: sum.splits)

lemma untouched_insertItem: "insertItem render item t s = Inr s1 \<Longrightarrow> untouched (snd s) (snd s1)"
  by (auto simp: insertItem_def untouched_def split_def Let_def split: sum.splits)

lemma untouched_deleteItem: "untouched (snd s) (snd (deleteItem h s))"
  by (simp add: deleteItem_def untouched_def split_def Let_def clear_def destroy_def)

lemma untouched_reset: "untouched rt (reset h rt)"
  by (simp add: reset_def untouched_def)

lemma untouched_heap: "untouched rt (rt\<lparr>heap := hp\<rparr>)"
  by (simp add: untouched_def)

lemma untouched_sync_items:
  "sync_items render old items idx s = Inr s1 \<Longrightarrow> untouched (snd s) (snd s1)"
proof (induction items arbitrary: idx s)
  case Nil
  then show ?case by simp
next
  case (Cons item rest)
  let ?k = "item_key item"
  show ?case
  proof (cases "case at_index old idx of None \<Rightarrow> None
      | Some h \<Rightarrow> if OpcodeRef h = ?k then Some h else None")
    case (Some h)
    with Cons.prems have "sync_items render old rest (Suc idx) (retainItem h item s) = Inr s1"
      by (simp add: Let_def)
    from Cons.IH [OF this] untouched_retainItem [of s h item] show ?thesis
      by (rule untouched_trans [rotated])
  next
    case None
    note fast = None
    show ?thesis
    proof (cases "opcodeMap (fst s) ?k")
      case None
      with Cons.prems fast obtain s2 where s2: "insertItem render item (at_index old idx) s = Inr s2"
        "sync_items render old rest idx s2 = Inr s1"
        by (auto simp: Let_def split: sum.splits)
      from untouched_insertItem [OF s2(1)] Cons.IH [OF s2(2)] show ?thesis
        by (rule untouched_trans)
    next
      case (Some h0)
      show ?thesis
      proof (cases "seen (heap (snd s) h0)")
        case True
        with Cons.prems fast Some obtain s2 where s2: "moveItem h0 item (at_index old idx) s = Inr s2"
          "sync_items render old rest idx s2 = Inr s1"
          by (auto simp: Let_def split: sum.splits)
        from untouched_moveItem [OF s2(1)] Cons.IH [OF s2(2)] show ?thesis
          by (rule untouched_trans)
      next
        case False
        with Cons.prems fast Some obtain h i hp where s2:
          "sync_items render old rest (Suc i) (retainItem h item (fst s, (snd s)\<lparr>heap := hp\<rparr>)) = Inr s1"
          by (auto simp: Let_def split: sum.splits)
        have "untouched (snd s) (snd (retainItem h item (fst s, (snd s)\<lparr>heap := hp\<rparr>)))"
          using untouched_retainItem [of "(fst s, (snd s)\<lparr>heap := hp\<rparr>)" h item]
          by (simp add: untouched_def)
        from this Cons.IH [OF s2] show ?thesis by (rule untouched_trans)
      qed
    qed
  qed
qed

lemma untouched_sync_cleanup: "untouched (snd s) (snd (sync_cleanup hs s))"
proof (induction hs arbitrary: s)
  case Nil
  then show ?case by simp
next
  case (Cons h hs)
  show ?case
  proof (cases "retained (heap (snd s) h)")
    case True
    have "untouched (snd s) (snd (fst s, reset h (snd s)))" by (simp add: untouched_reset)
    from this Cons.IH [of "(fst s, reset h (snd s))"] show ?thesis
      using True by (simp add: untouched_def)
  next
    case False
    from untouched_deleteItem [of s h] Cons.IH [of "deleteItem h s"] show ?thesis
      using False by (simp add: untouched_def)
  qed
qed

lemma ListBlockOpcode_sync_passes:
  assumes "ListBlockOpcode_sync render (lb, rt) = Inr (lb1, rt1)"
  shows "passes rt1 = Suc (passes rt)" and "runtime.more rt1 = runtime.more rt"
proof -
  from assms obtain items s1 where s1:
    "sync_items render (lb_children lb) items 0
       (lb\<lparr>lb_children := [], iterableRef := (iterableRef lb)\<lparr>iterator := None\<rparr>\<rparr>,
        rt\<lparr>passes := Suc (passes rt)\<rparr>) = Inr s1"
    "(lb1, rt1) = sync_cleanup (lb_children lb) s1"
    by (auto simp: ListBlockOpcode_sync_def Let_def split: option.splits sum.splits)
  from untouched_sync_items [OF s1(1)] untouched_sync_cleanup [of s1 "lb_children lb"] s1(2) [symmetric]
  have "untouched (rt\<lparr>passes := Suc (passes rt)\<rparr>) rt1"
    by (auto intro: untouched_trans)
  then show "passes rt1 = Suc (passes rt)" and "runtime.more rt1 = runtime.more rt"
    by (simp_all add: untouched_def)
qed


section \<open>Theorems: try blocks\<close>










section \<open>Theorems: evaluating a list block\<close>

lemma perform_call_keeps:
  "perform_call render c s = Inr s1 \<Longrightarrow>
     untouched (snd s) (snd s1) \<and>
     artifacts_tag (d_opcode (fst s1)) = artifacts_tag (d_opcode (fst s))"
  by (cases c)
    (auto simp: ListRevalidationDelegate_insert_def ListRevalidationDelegate_retain_def
      ListRevalidationDelegate_move_def ListRevalidationDelegate_delete_def untouched_def
      split_def Let_def moveBounds_def clear_def destroy_def
      split: sum.splits option.splits if_splits)

lemma perform_calls_keeps:
  "perform_calls render cs s = Inr s1 \<Longrightarrow>
     untouched (snd s) (snd s1) \<and>
     artifacts_tag (d_opcode (fst s1)) = artifacts_tag (d_opcode (fst s))"
proof (induction cs arbitrary: s)
  case Nil
  then show ?case by simp
next
  case (Cons c cs)
  then obtain s2 where s2: "perform_call render c s = Inr s2" "perform_calls render cs s2 = Inr s1"
    by (auto split: sum.splits)
  from perform_call_keeps [OF s2(1)] Cons.IH [OF s2(2)] show ?case
    by (auto intro: untouched_trans)
qed

lemma IteratorSynchronizer_sync_spec:
  assumes "IteratorSynchronizer_sync render calls w (d, rt) = Inr (d1, rt1)"
  shows "passes rt1 = Suc (passes rt)" and "runtime.more rt1 = runtime.more rt"
    and "lastIterated (d_opcode d1) = valueForTag w (artifacts_tag (d_opcode d))"
proof -
  from assms obtain s1 where s1:
    "perform_calls render calls (d, rt\<lparr>passes := Suc (passes rt)\<rparr>) = Inr s1"
    "(d1, rt1) = ListRevalidationDelegate_done w s1"
    by (auto simp: IteratorSynchronizer_sync_def split: sum.splits)
  note k = perform_calls_keeps [OF s1(1)]
  have rt1: "rt1 = snd s1" and d1: "d_opcode d1 =
      ListBlockOpcode_v1_didInitializeChildren (didInsert (fst s1) \<or> didDelete (fst s1)) w
        (heap (snd s1)) (d_opcode (fst s1))"
    using s1(2) by (simp_all add: ListRevalidationDelegate_done_def split_def)
  show "passes rt1 = Suc (passes rt)" and "runtime.more rt1 = runtime.more rt"
    using k by (simp_all add: rt1 untouched_def)
  show "lastIterated (d_opcode d1) = valueForTag w (artifacts_tag (d_opcode d))"
    using k by (simp add: d1 ListBlockOpcode_v1_didInitializeChildren_def Let_def)
qed

lemma sync_items_iterableRef:
  "sync_items render old items idx s = Inr s1 \<Longrightarrow> iterableRef (fst s1) = iterableRef (fst s)"
proof (induction items arbitrary: idx s)
  case Nil
  then show ?case by simp
next
  case (Cons item rest)
  let ?k = "item_key item"
  show ?case
  proof (cases "case at_index old idx of None \<Rightarrow> None
      | Some h \<Rightarrow> if OpcodeRef h = ?k then Some h else None")
    case (Some h)
    with Cons.prems have "sync_items render old rest (Suc idx) (retainItem h item s) = Inr s1"
      by (simp add: Let_def)
    from Cons.IH [OF this] show ?thesis by (simp add: retainItem_def split_def)
  next
    case None
    note fast = None
    show ?thesis
    proof (cases "opcodeMap (fst s) ?k")
      case None
      with Cons.prems fast obtain s2 where s2: "insertItem render item (at_index old idx) s = Inr s2"
        "sync_items render old rest idx s2 = Inr s1"
        by (auto simp: Let_def split: sum.splits)
      have "iterableRef (fst s2) = iterableRef (fst s)"
        using s2(1) by (auto simp: insertItem_def split_def Let_def split: sum.splits)
      with Cons.IH [OF s2(2)] show ?thesis by simp
    next
      case (Some h0)
      show ?thesis
      proof (cases "seen (heap (snd s) h0)")
        case True
        with Cons.prems fast Some obtain s2 where s2: "moveItem h0 item (at_index old idx) s = Inr s2"
          "sync_items render old rest idx s2 = Inr s1"
          by (auto simp: Let_def split: sum.splits)
        have "iterableRef (fst s2) = iterableRef (fst s)"
          using s2(1) by (auto simp: moveItem_def split_def Let_def split: sum.splits)
        with Cons.IH [OF s2(2)] show ?thesis by simp
      next
        case False
        with Cons.prems fast Some obtain h i hp where s2:
          "sync_items render old rest (Suc i) (retainItem h item (fst s, (snd s)\<lparr>heap := hp\<rparr>)) = Inr s1"
          by (auto simp: Let_def split: sum.splits)
        from Cons.IH [OF s2] show ?thesis by (simp add: retainItem_def split_def)
      qed
    qed
  qed
qed

lemma sync_cleanup_iterableRef: "iterableRef (fst (sync_cleanup hs s)) = iterableRef (fst s)"
proof (induction hs arbitrary: s)
  case Nil
  then show ?case by simp
next
  case (Cons h hs)
  show ?case
    using Cons.IH [of "deleteItem h s"] Cons.IH [of "(fst s, reset h (snd s))"]
    by (simp add: deleteItem_def split_def Let_def)
qed

lemma sync_leaves_no_iterator:
  assumes "ListBlockOpcode_sync render (lb, rt) = Inr (lb1, rt1)"
  shows "iterator (iterableRef lb1) = None"
proof -
  from assms obtain items s1 where s1:
    "sync_items render (lb_children lb) items 0
       (lb\<lparr>lb_children := [], iterableRef := (iterableRef lb)\<lparr>iterator := None\<rparr>\<rparr>,
        rt\<lparr>passes := Suc (passes rt)\<rparr>) = Inr s1"
    "(lb1, rt1) = sync_cleanup (lb_children lb) s1"
    by (auto simp: ListBlockOpcode_sync_def Let_def split: option.splits sum.splits)
  have "iterableRef lb1 = iterableRef (fst s1)"
    using sync_cleanup_iterableRef [of "lb_children lb" s1] s1(2) [symmetric] by simp
  with sync_items_iterableRef [OF s1(1)] show ?thesis by simp
qed

text \<open>
  Claim C5, amended. In the first version, \<open>evaluate\<close> tests the tag of the collection
  against \<open>lastIterated\<close>. If the tag is stale and \<open>evaluate\<close> returns, exactly one pass
  has run, \<open>lastIterated\<close> is the revision of the tag, and the frame that \<open>evaluate\<close> has
  pushed for the VM holds the children as the pass has left them. If the tag is
  valid, no pass runs and nothing changes but the stack, which gets the frame of the
  children. In the second version, \<open>evaluate\<close> tests whether the iterable reference still
  holds an iterator, and no tag. If it does and \<open>evaluate\<close> returns, exactly one pass has
  run, the iterator is used up, and the pushed frame holds the children as the pass has
  left them. If it does not, no pass runs and nothing changes but the stack. In both
  versions \<open>evaluate\<close> evaluates no child itself: the VM takes the children from the
  pushed frame, after the pass.
\<close>

theorem list_block_evaluate_order:
  fixes vm :: "('v, 'w) UpdatingVM"
  shows
  "(\<not> validateTag (world vm) (artifacts_tag opc) (lastIterated opc) \<and>
      ListBlockOpcode_v1_evaluate render calls opc vm = Inr (opc1, vm1) \<longrightarrow>
      passes vm1 = Suc (passes vm) \<and>
      lastIterated opc1 = valueForTag (world vm) (artifacts_tag opc) \<and>
      frameStack vm1 = new_UpdatingVMFrame (map TryRef (v1_children opc1)) None # frameStack vm)
   \<and> (validateTag (world vm) (artifacts_tag opc) (lastIterated opc) \<longrightarrow>
      ListBlockOpcode_v1_evaluate render calls opc vm =
        Inr (opc, vm\<lparr>frameStack :=
                       new_UpdatingVMFrame (map TryRef (v1_children opc)) None # frameStack vm\<rparr>))
   \<and> (iterator (iterableRef (list_blocks vm b)) \<noteq> None \<and>
      ListBlockOpcode_evaluate render b vm = (Inr (), vm2) \<longrightarrow>
      passes vm2 = Suc (passes vm) \<and>
      iterator (iterableRef (list_blocks vm2 b)) = None \<and>
      frameStack vm2 =
        new_UpdatingVMFrame (map TryRef (lb_children (list_blocks vm2 b))) None # frameStack vm)
   \<and> (iterator (iterableRef (list_blocks vm b)) = None \<longrightarrow>
      ListBlockOpcode_evaluate render b vm =
        (Inr (), vm\<lparr>frameStack :=
           new_UpdatingVMFrame (map TryRef (lb_children (list_blocks vm b))) None # frameStack vm\<rparr>))"
proof -
  have v1_stale: "passes vm1 = Suc (passes vm) \<and>
      lastIterated opc1 = valueForTag (world vm) (artifacts_tag opc) \<and>
      frameStack vm1 = new_UpdatingVMFrame (map TryRef (v1_children opc1)) None # frameStack vm"
    if a: "\<not> validateTag (world vm) (artifacts_tag opc) (lastIterated opc) \<and>
      ListBlockOpcode_v1_evaluate render calls opc vm = Inr (opc1, vm1)"
  proof -
    let ?m = "next_node vm"
    let ?vm1 = "vm\<lparr>next_node := Suc ?m\<rparr>"
    let ?d = "\<lparr>d_opcode = opc, d_marker = ?m, didInsert = False, didDelete = False\<rparr>"
    from a obtain ln d vm2 where r:
      "IteratorSynchronizer_sync render calls (world ?vm1)
         (?d, ?vm1\<lparr>childNodes := insertAfter ?m ln (childNodes ?vm1)\<rparr>) = Inr (d, vm2)"
      "opc1 = d_opcode d"
      "vm1 = BlockOpcode_evaluate (map TryRef (v1_children (d_opcode d)))
               (vm2\<lparr>childNodes := removeChild ?m (childNodes vm2)\<rparr>)"
      by (auto simp: ListBlockOpcode_v1_evaluate_def Let_def split: option.splits sum.splits)
    note sp = IteratorSynchronizer_sync_spec [OF r(1)]
    have fs: "frameStack vm2 = frameStack vm"
      using more_eq_fields(1) [OF sp(2)] by simp
    show ?thesis
      using sp fs by (simp add: r(2) r(3) BlockOpcode_evaluate_def UpdatingVM_try_def)
  qed
  have v1_valid: "ListBlockOpcode_v1_evaluate render calls opc vm =
        Inr (opc, vm\<lparr>frameStack :=
                       new_UpdatingVMFrame (map TryRef (v1_children opc)) None # frameStack vm\<rparr>)"
    if "validateTag (world vm) (artifacts_tag opc) (lastIterated opc)"
    using that
    by (simp add: ListBlockOpcode_v1_evaluate_def BlockOpcode_evaluate_def UpdatingVM_try_def)
  have v2_pending: "passes vm2 = Suc (passes vm) \<and>
      iterator (iterableRef (list_blocks vm2 b)) = None \<and>
      frameStack vm2 =
        new_UpdatingVMFrame (map TryRef (lb_children (list_blocks vm2 b))) None # frameStack vm"
    if a: "iterator (iterableRef (list_blocks vm b)) \<noteq> None \<and>
      ListBlockOpcode_evaluate render b vm = (Inr (), vm2)"
  proof -
    let ?lb = "list_blocks vm b"
    let ?m = "next_node vm"
    let ?vm1 = "vm\<lparr>next_node := Suc ?m\<rparr>"
    from a obtain ln lb1 vm3 where r:
      "ListBlockOpcode_sync render
         (?lb\<lparr>marker := Some ?m\<rparr>, ?vm1\<lparr>childNodes := insertAfter ?m ln (childNodes ?vm1)\<rparr>) =
         Inr (lb1, vm3)"
      "vm2 = BlockOpcode_evaluate (map TryRef (lb_children (lb1\<lparr>marker := None\<rparr>)))
         (vm3\<lparr>childNodes := removeChild ?m (childNodes vm3),
              list_blocks := (list_blocks vm3)(b := lb1\<lparr>marker := None\<rparr>)\<rparr>)"
      by (auto simp: ListBlockOpcode_evaluate_def IterableReference_isDone_def Let_def
          split: option.splits sum.splits prod.splits)
    note sp = ListBlockOpcode_sync_passes [OF r(1)]
    have fs: "frameStack vm3 = frameStack vm"
      using more_eq_fields(1) [OF sp(2)] by simp
    have it: "iterator (iterableRef lb1) = None"
      using r(1) sync_leaves_no_iterator by blast
    show ?thesis
      using sp fs it by (simp add: r(2) BlockOpcode_evaluate_def UpdatingVM_try_def)
  qed
  have v2_done: "ListBlockOpcode_evaluate render b vm =
        (Inr (), vm\<lparr>frameStack :=
           new_UpdatingVMFrame (map TryRef (lb_children (list_blocks vm b))) None # frameStack vm\<rparr>)"
    if "iterator (iterableRef (list_blocks vm b)) = None"
    using that
    by (simp add: ListBlockOpcode_evaluate_def IterableReference_isDone_def
        BlockOpcode_evaluate_def UpdatingVM_try_def)
  from v1_stale v1_valid v2_pending v2_done show ?thesis by blast
qed

text \<open>
  The four cases on the rotation scenario: the first version with a stale tag (one pass,
  baseline 2, children in the order k2, k3, k1) and with a valid tag (no pass); the
  second version with a pending iterator (one pass, same order) and with none (no pass).
\<close>

theorem list_block_evaluate_order_witness:
  "(\<not> validateTag (world rotate_vm) (artifacts_tag rotate_v1) (lastIterated rotate_v1) \<and>
     (\<exists>opc1 vm1. ListBlockOpcode_v1_evaluate render_one rotate_calls rotate_v1 rotate_vm =
          Inr (opc1, vm1) \<and>
        passes vm1 = 1 \<and> lastIterated opc1 = 2 \<and> v1_children opc1 = [1, 2, 0] \<and>
        frameStack vm1 = [new_UpdatingVMFrame [TryRef 1, TryRef 2, TryRef 0] None]))
   \<and> (validateTag (world rotate_vm) (artifacts_tag (rotate_v1\<lparr>lastIterated := 2\<rparr>))
         (lastIterated (rotate_v1\<lparr>lastIterated := 2\<rparr>)) \<and>
       ListBlockOpcode_v1_evaluate render_one rotate_calls (rotate_v1\<lparr>lastIterated := 2\<rparr>) rotate_vm =
         Inr (rotate_v1\<lparr>lastIterated := 2\<rparr>,
              rotate_vm\<lparr>frameStack := [new_UpdatingVMFrame [TryRef 0, TryRef 1, TryRef 2] None]\<rparr>))
   \<and> (iterator (iterableRef (list_blocks rotate_vm 0)) \<noteq> None \<and>
       (\<exists>vm2. ListBlockOpcode_evaluate render_one 0 rotate_vm = (Inr (), vm2) \<and>
          passes vm2 = 1 \<and> iterator (iterableRef (list_blocks vm2 0)) = None \<and>
          lb_children (list_blocks vm2 0) = [1, 2, 0] \<and>
          frameStack vm2 = [new_UpdatingVMFrame [TryRef 1, TryRef 2, TryRef 0] None]))
   \<and> (iterator (iterableRef (list_blocks stale_vm 0)) = None \<and>
       ListBlockOpcode_evaluate render_one 0 stale_vm =
         (Inr (), stale_vm\<lparr>frameStack := [new_UpdatingVMFrame [TryRef 0, TryRef 1, TryRef 2] None]\<rparr>))"
proof -
  have s1: "\<not> validateTag (world rotate_vm) (artifacts_tag rotate_v1) (lastIterated rotate_v1)"
    by (simp add: validateTag_def rotate_vm_def rotate_v1_def demo_world_def)
  have "\<exists>opc1 vm1. ListBlockOpcode_v1_evaluate render_one rotate_calls rotate_v1 rotate_vm =
      Inr (opc1, vm1) \<and> v1_children opc1 = [1, 2, 0]"
    by (simp add: ListBlockOpcode_v1_evaluate_def validateTag_def rotate_vm_def rotate_v1_def
      rotate_rt_def demo_world_def rotate_calls_def mk_op_def lastNode_def insertAfter_def
      removeChild_def IteratorSynchronizer_sync_def ListRevalidationDelegate_retain_def
      ListRevalidationDelegate_move_def ListRevalidationDelegate_done_def
      ListBlockOpcode_v1_didInitializeChildren_def END_def
      moveBounds_def insertBefore_def removeNodes_def
      BlockOpcode_evaluate_def UpdatingVM_try_def Let_def)
  then obtain opc1 vm1 where r1:
    "ListBlockOpcode_v1_evaluate render_one rotate_calls rotate_v1 rotate_vm = Inr (opc1, vm1)"
    "v1_children opc1 = [1, 2, 0]" by blast
  have s2: "validateTag (world rotate_vm) (artifacts_tag (rotate_v1\<lparr>lastIterated := 2\<rparr>))
         (lastIterated (rotate_v1\<lparr>lastIterated := 2\<rparr>))"
    by (simp add: validateTag_def rotate_vm_def rotate_v1_def demo_world_def)
  have s3: "iterator (iterableRef (list_blocks rotate_vm 0)) \<noteq> None"
    by (simp add: rotate_vm_def rotate_lb_def pending_def)
  have "\<exists>vm2. ListBlockOpcode_evaluate render_one 0 rotate_vm = (Inr (), vm2) \<and>
      lb_children (list_blocks vm2 0) = [1, 2, 0]"
    by (simp add: ListBlockOpcode_evaluate_def IterableReference_isDone_def rotate_vm_def
      rotate_lb_def rotate_rt_def pending_def mk_op_def mk_item_def lastNode_def insertAfter_def
      removeChild_def ListBlockOpcode_sync_def at_index_def retainItem_def moveItem_def
      nextSibling_for_def moveBounds_def insertBefore_def removeNodes_def reset_def
      BlockOpcode_evaluate_def UpdatingVM_try_def Let_def)
  then obtain vm2 where r3: "ListBlockOpcode_evaluate render_one 0 rotate_vm = (Inr (), vm2)"
    "lb_children (list_blocks vm2 0) = [1, 2, 0]" by blast
  have s4: "iterator (iterableRef (list_blocks stale_vm 0)) = None"
    by (simp add: stale_vm_def stale_iterable_def)
  note T = list_block_evaluate_order [where render = render_one and calls = rotate_calls]
  have c1: "passes vm1 = 1 \<and> lastIterated opc1 = 2 \<and>
      frameStack vm1 = [new_UpdatingVMFrame [TryRef 1, TryRef 2, TryRef 0] None]"
    using T [where vm = rotate_vm and opc = rotate_v1 and ?opc1.0 = opc1 and ?vm1.0 = vm1] s1 r1
    by (simp add: rotate_vm_def rotate_v1_def demo_world_def)
  have c2: "ListBlockOpcode_v1_evaluate render_one rotate_calls (rotate_v1\<lparr>lastIterated := 2\<rparr>) rotate_vm =
         Inr (rotate_v1\<lparr>lastIterated := 2\<rparr>,
              rotate_vm\<lparr>frameStack := [new_UpdatingVMFrame [TryRef 0, TryRef 1, TryRef 2] None]\<rparr>)"
    using T [where vm = rotate_vm and opc = "rotate_v1\<lparr>lastIterated := 2\<rparr>"] s2
    by (simp add: rotate_vm_def rotate_v1_def)
  have c3: "passes vm2 = 1 \<and> iterator (iterableRef (list_blocks vm2 0)) = None \<and>
      frameStack vm2 = [new_UpdatingVMFrame [TryRef 1, TryRef 2, TryRef 0] None]"
    using T [where vm = rotate_vm and b = 0 and ?vm2.0 = vm2] s3 r3
    by (simp add: rotate_vm_def)
  have c4: "ListBlockOpcode_evaluate render_one 0 stale_vm =
         (Inr (), stale_vm\<lparr>frameStack := [new_UpdatingVMFrame [TryRef 0, TryRef 1, TryRef 2] None]\<rparr>)"
    using T [where vm = stale_vm and b = 0] s4
    by (simp add: stale_vm_def rotate_vm_def rotate_lb_def)
  from s1 r1 c1 s2 c2 s3 r3 c3 s4 c4 show ?thesis by blast
qed

text \<open>
  Claim C5, as the specification states it, has every list block test the tag of its
  collection against the revision of the last synchronisation, and run a pass if and
  only if the tag is stale. The second version tests \<open>iterableRef.isDone()\<close> instead. In
  \<open>stale_vm\<close> the iterable reference of list block 0 was last computed at revision 1 and
  its tag is now at revision 2, so the tag is stale, but the reference holds no
  iterator: \<open>evaluate\<close> returns and no pass has run. In \<open>rotate_vm\<close> the reference was
  computed at revision 2, so the tag is valid, but its iterator is pending: \<open>evaluate\<close>
  runs one pass, which moves k1.
\<close>

theorem list_block_evaluate_counterexample:
  "lastRevision (iterableRef (list_blocks stale_vm 0)) = Some 1
   \<and> \<not> validateTag (world stale_vm) (ref_tag (iterableRef (list_blocks stale_vm 0))) 1
   \<and> fst (ListBlockOpcode_evaluate render_one 0 stale_vm) = Inr ()
   \<and> passes (snd (ListBlockOpcode_evaluate render_one 0 stale_vm)) = passes stale_vm
   \<and> trace (snd (ListBlockOpcode_evaluate render_one 0 stale_vm)) = []
   \<and> lastRevision (iterableRef (list_blocks rotate_vm 0)) = Some 2
   \<and> validateTag (world rotate_vm) (ref_tag (iterableRef (list_blocks rotate_vm 0))) 2
   \<and> fst (ListBlockOpcode_evaluate render_one 0 rotate_vm) = Inr ()
   \<and> passes (snd (ListBlockOpcode_evaluate render_one 0 rotate_vm)) = Suc (passes rotate_vm)
   \<and> trace (snd (ListBlockOpcode_evaluate render_one 0 rotate_vm)) =
       [Retain (Prim ''k2'') 1, Retain (Prim ''k3'') 2, Move (Prim ''k1'') 0]"
  by (simp add: ListBlockOpcode_evaluate_def IterableReference_isDone_def stale_vm_def
      stale_iterable_def rotate_vm_def validateTag_def demo_world_def
      rotate_lb_def rotate_rt_def pending_def mk_op_def mk_item_def lastNode_def insertAfter_def
      removeChild_def ListBlockOpcode_sync_def at_index_def retainItem_def moveItem_def
      nextSibling_for_def moveBounds_def insertBefore_def removeNodes_def reset_def
      BlockOpcode_evaluate_def UpdatingVM_try_def Let_def)


end
